theory Spec2Isabelle
  imports Main
begin

section \<open>JavaScript strings and values used by the page\<close>

text \<open>
  The page (\<^verbatim>\<open>frontend/app/page.tsx\<close>) works on JavaScript strings. A string is modelled
  as a \<^typ>\<open>string\<close> whose characters are the code units \<open>0..255\<close> (ASCII and Latin-1).
  On this range \<^verbatim>\<open>String.prototype.toLowerCase\<close> maps \<open>A..Z\<close> and the capital letters
  \<open>0xC0..0xDE\<close> (without the multiplication sign \<open>0xD7\<close>) to the code unit 32 places
  higher and leaves every other code unit alone. The page compares lower-cased strings
  with the literals \<^verbatim>\<open>.pdf\<close>, \<^verbatim>\<open>uploaded\<close>, \<^verbatim>\<open>text_ready\<close>, \<^verbatim>\<open>summary_ready\<close> and \<^verbatim>\<open>error\<close> only;
  beyond the range, \<^verbatim>\<open>toLowerCase\<close> produces no letter of these literals.
\<close>

definition toLowerCase_char :: "char \<Rightarrow> char" where
  "toLowerCase_char c =
     (let n = (of_char c :: nat)
      in if (65 \<le> n \<and> n \<le> 90) \<or> (192 \<le> n \<and> n \<le> 222 \<and> n \<noteq> 215)
         then char_of (n + 32) else c)"

definition toLowerCase :: "string \<Rightarrow> string" where
  "toLowerCase s = map toLowerCase_char s"

text \<open>\<^verbatim>\<open>s.endsWith(t)\<close>: the last \<open>length t\<close> code units of \<open>s\<close> are \<open>t\<close>.\<close>

definition endsWith :: "string \<Rightarrow> string \<Rightarrow> bool" where
  "endsWith s t = (length t \<le> length s \<and> drop (length s - length t) s = t)"

text \<open>
  \<^verbatim>\<open>encodeURIComponent\<close>: the unreserved characters stay, every other code unit is
  written as the percent-escapes of its UTF-8 bytes (one byte below 128, two bytes for
  \<open>128..255\<close>).
\<close>

definition uriUnreserved :: "char \<Rightarrow> bool" where
  "uriUnreserved c =
     (c \<in> set (''ABCDEFGHIJKLMNOPQRSTUVWXYZabcdefghijklmnopqrstuvwxyz0123456789-_.!~*()''
               @ [char_of (39 :: nat)]))"

definition hexDigit :: "nat \<Rightarrow> char" where
  "hexDigit n = ''0123456789ABCDEF'' ! (n mod 16)"

definition percentByte :: "nat \<Rightarrow> string" where
  "percentByte b = [CHR ''%'', hexDigit (b div 16), hexDigit b]"

definition encodeURIComponent_char :: "char \<Rightarrow> string" where
  "encodeURIComponent_char c =
     (let n = (of_char c :: nat)
      in if uriUnreserved c then [c]
         else if n < 128 then percentByte n
         else percentByte (192 + n div 64) @ percentByte (128 + n mod 64))"

definition encodeURIComponent :: "string \<Rightarrow> string" where
  "encodeURIComponent s = concat (map encodeURIComponent_char s)"

text \<open>
  A value that \<^verbatim>\<open>response.json()\<close> can produce. Numbers are the integers (the only number
  in the page's interfaces is \<^verbatim>\<open>count\<close>, which the page never reads).
\<close>

datatype json =
    JNull
  | JBool bool
  | JNum int
  | JStr string
  | JArr "json list"
  | JObj "(string \<times> json) list"

text \<open>
  Reading one of the properties \<^verbatim>\<open>summaries\<close>, \<^verbatim>\<open>status\<close> or \<^verbatim>\<open>detail\<close> of a value that is
  not \<^verbatim>\<open>null\<close>: an object gives the value stored under the key (the last one when the
  key is repeated, as \<^verbatim>\<open>JSON.parse\<close> keeps it), everything else gives \<^verbatim>\<open>undefined\<close>,
  written \<open>None\<close>. Reading a property of \<^verbatim>\<open>null\<close> throws; the callers test for it.
\<close>

fun getProp :: "json \<Rightarrow> string \<Rightarrow> json option" where
  "getProp (JObj kvs) k = map_of (rev kvs) k"
| "getProp _ k = None"

text \<open>Truthiness, as \<^verbatim>\<open>||\<close> tests it; \<open>None\<close> is \<^verbatim>\<open>undefined\<close>.\<close>

fun truthy :: "json option \<Rightarrow> bool" where
  "truthy None = False"
| "truthy (Some JNull) = False"
| "truthy (Some (JBool b)) = b"
| "truthy (Some (JNum n)) = (n \<noteq> 0)"
| "truthy (Some (JStr s)) = (s \<noteq> [])"
| "truthy (Some (JArr xs)) = True"
| "truthy (Some (JObj kvs)) = True"

text \<open>\<^verbatim>\<open>String(v)\<close>, which \<^verbatim>\<open>new Error(v)\<close> applies to its argument.\<close>

function decimal :: "nat \<Rightarrow> string" where
  "decimal n = (if n < 10 then [hexDigit n] else decimal (n div 10) @ [hexDigit (n mod 10)])"
  by pat_completeness auto
termination
  by (relation "measure (\<lambda>n. n)") auto

fun joinWith :: "string \<Rightarrow> string list \<Rightarrow> string" where
  "joinWith sep [] = []"
| "joinWith sep [x] = x"
| "joinWith sep (x # y # ys) = x @ sep @ joinWith sep (y # ys)"

fun js_String :: "json \<Rightarrow> string" where
  "js_String JNull = ''null''"
| "js_String (JBool b) = (if b then ''true'' else ''false'')"
| "js_String (JNum n) = (if n < 0 then CHR ''-'' # decimal (nat (- n)) else decimal (nat n))"
| "js_String (JStr s) = s"
| "js_String (JArr xs) =
     joinWith '','' (map (\<lambda>x. if x = JNull then [] else js_String x) xs)"
| "js_String (JObj kvs) = ''[object Object]''"

text \<open>
  What a \<^verbatim>\<open>catch\<close> block receives: an \<^verbatim>\<open>Error\<close> instance with its message, or some other
  thrown value.
\<close>

datatype thrown = Error string | NotAnError

text \<open>\<^verbatim>\<open>err instanceof Error ? err.message : fallback\<close>\<close>

fun messageOr :: "thrown \<Rightarrow> string \<Rightarrow> string" where
  "messageOr (Error m) fallback = m"
| "messageOr NotAnError fallback = fallback"

text \<open>The \<^verbatim>\<open>TypeError\<close> of reading property \<open>p\<close> of \<^verbatim>\<open>null\<close> (the wording is the engine's).\<close>

definition nullRead :: "string \<Rightarrow> thrown" where
  "nullRead p = Error (''Cannot read properties of null (reading '' @ p @ '')'')"

text \<open>Calling \<^verbatim>\<open>v.m(...)\<close> where \<^verbatim>\<open>v.m\<close> is not a function.\<close>

definition notAFunction :: "string \<Rightarrow> thrown" where
  "notAFunction m = Error (m @ '' is not a function'')"

section \<open>The page: \<^verbatim>\<open>frontend/app/page.tsx\<close>\<close>

text \<open>The interface \<^verbatim>\<open>Summary\<close> and the object that carries it on the wire.\<close>

text \<open>The field \<^verbatim>\<open>text\<close> is written \<open>text'\<close>.\<close>

record Summary =
  file_id :: string
  filename :: string
  status :: string
  text' :: string
  summary :: string
  updated_at :: string

definition Summary_json :: "Summary \<Rightarrow> json" where
  "Summary_json s = JObj
     [(''file_id'', JStr (file_id s)),
      (''filename'', JStr (filename s)),
      (''status'', JStr (status s)),
      (''text'', JStr (text' s)),
      (''summary'', JStr (summary s)),
      (''updated_at'', JStr (updated_at s))]"

text \<open>The interface \<^verbatim>\<open>SummariesResponse\<close>.\<close>

definition SummariesResponse_json :: "Summary list \<Rightarrow> int \<Rightarrow> json" where
  "SummariesResponse_json xs n =
     JObj [(''summaries'', JArr (map Summary_json xs)), (''count'', JNum n)]"

text \<open>The part of a browser \<^verbatim>\<open>File\<close> that the page reads.\<close>

record File =
  file_name :: string
  file_type :: string
  file_size :: nat

text \<open>
  The outcome of one \<^verbatim>\<open>fetch\<close>: the promise rejects, or it resolves to a response with its
  \<^verbatim>\<open>ok\<close> flag and the outcome of \<^verbatim>\<open>response.json()\<close> (a thrown value or the parsed body).
\<close>

datatype response = Rejected thrown | Response bool "thrown + json"

datatype request = GET string | POST string File

datatype timer = ResetUploadSuccess

text \<open>
  The component's state (the \<^verbatim>\<open>useState\<close> cells of \<^verbatim>\<open>Home\<close>), together with what it has
  done to the world: the requests issued so far, the pending \<^verbatim>\<open>setTimeout\<close> callbacks and
  whether the polling interval is running. \<open>summaries_ref\<close> counts the calls of
  \<^verbatim>\<open>setSummaries\<close>: each one stores a fresh array, and the polling effect depends on the
  identity of that array. \<open>NEXT_PUBLIC_API_URL\<close> is the environment variable.
\<close>

record page =
  summaries :: json
  summaries_ref :: nat
  loading :: bool
  error :: "string option"
  uploading :: bool
  uploadError :: "string option"
  uploadSuccess :: bool
  isDragging :: bool
  extractionMode :: string
  NEXT_PUBLIC_API_URL :: "string option"
  requests :: "request list"
  timeouts :: "timer list"
  pollInterval :: bool

definition initial :: "string option \<Rightarrow> page" where
  "initial env =
     \<lparr>summaries = JArr [], summaries_ref = 0, loading = True, error = None,
      uploading = False, uploadError = None, uploadSuccess = False, isDragging = False,
      extractionMode = ''plain_text'', NEXT_PUBLIC_API_URL = env, requests = [],
      timeouts = [], pollInterval = False\<rparr>"

text \<open>\<^verbatim>\<open>process.env.NEXT_PUBLIC_API_URL || 'http://localhost:8000'\<close>\<close>

definition apiUrl :: "page \<Rightarrow> string" where
  "apiUrl st =
     (case NEXT_PUBLIC_API_URL st of
        None \<Rightarrow> ''http://localhost:8000''
      | Some u \<Rightarrow> if u = [] then ''http://localhost:8000'' else u)"

definition setSummaries :: "json \<Rightarrow> page \<Rightarrow> page" where
  "setSummaries v st = st\<lparr>summaries := v, summaries_ref := Suc (summaries_ref st)\<rparr>"

text \<open>
  The \<^verbatim>\<open>try\<close> block of \<^verbatim>\<open>fetchSummaries\<close> after the request has been issued: the value handed
  to \<^verbatim>\<open>setSummaries\<close>, or what is thrown.
\<close>

definition fetchSummaries_try :: "response \<Rightarrow> thrown + json" where
  "fetchSummaries_try r =
     (case r of
        Rejected t \<Rightarrow> Inl t
      | Response ok body \<Rightarrow>
          if \<not> ok then Inl (Error ''Failed to fetch summaries'')
          else (case body of
                  Inl t \<Rightarrow> Inl t
                | Inr data \<Rightarrow>
                    if data = JNull then Inl (nullRead ''summaries'')
                    else Inr (if truthy (getProp data ''summaries'')
                              then the (getProp data ''summaries'') else JArr [])))"

definition fetchSummaries :: "bool \<Rightarrow> response \<Rightarrow> page \<Rightarrow> page" where
  "fetchSummaries silent r st =
     (let st1 = st\<lparr>requests := requests st @ [GET (apiUrl st @ ''/summaries'')]\<rparr>;
          st2 = (case fetchSummaries_try r of
                   Inr v \<Rightarrow> setSummaries v st1
                 | Inl err \<Rightarrow>
                     if \<not> silent then st1\<lparr>error := Some (messageOr err ''An error occurred'')\<rparr>
                     else st1)
      in if \<not> silent then st2\<lparr>loading := False\<rparr> else st2)"

text \<open>
  The polling effect. \<^verbatim>\<open>summaries.some(cb)\<close> stops at the first element for which the
  callback is true; the callback throws when \<^verbatim>\<open>s.status\<close> is not a string.
\<close>

definition inProgress :: "json \<Rightarrow> thrown + bool" where
  "inProgress s =
     (if s = JNull then Inl (nullRead ''status'')
      else (case getProp s ''status'' of
              Some (JStr t) \<Rightarrow>
                Inr (toLowerCase t = ''uploaded'' \<or> toLowerCase t = ''text_ready'')
            | Some JNull \<Rightarrow> Inl (nullRead ''toLowerCase'')
            | None \<Rightarrow> Inl (Error ''Cannot read properties of undefined (reading toLowerCase)'')
            | Some _ \<Rightarrow> Inl (notAFunction ''s.status.toLowerCase'')))"

fun some_inProgress :: "json list \<Rightarrow> thrown + bool" where
  "some_inProgress [] = Inr False"
| "some_inProgress (s # ss) =
     (case inProgress s of
        Inl t \<Rightarrow> Inl t
      | Inr b \<Rightarrow> if b then Inr True else some_inProgress ss)"

definition hasInProgressSummaries :: "json \<Rightarrow> thrown + bool" where
  "hasInProgressSummaries v =
     (case v of
        JArr ss \<Rightarrow> some_inProgress ss
      | _ \<Rightarrow> Inl (notAFunction ''summaries.some''))"

text \<open>
  One run of the effect: the clean-up of the previous run has cleared the interval; a
  new interval is set exactly when some summary is in progress.
\<close>

definition pollEffect :: "page \<Rightarrow> thrown + page" where
  "pollEffect st =
     (case hasInProgressSummaries (summaries st) of
        Inl t \<Rightarrow> Inl t
      | Inr b \<Rightarrow> Inr (st\<lparr>pollInterval := b\<rparr>))"

text \<open>
  After a handler has run, React renders again and re-runs the effect when its
  dependency \<^verbatim>\<open>summaries\<close> is a new array.
\<close>

definition rerender :: "page \<Rightarrow> page \<Rightarrow> thrown + page" where
  "rerender old new =
     (if summaries_ref new \<noteq> summaries_ref old then pollEffect new else Inr new)"

text \<open>
  One firing of the interval: \<^verbatim>\<open>fetchSummaries(true)\<close>. Without a running interval there
  is nothing to fire.
\<close>

definition pollTick :: "response \<Rightarrow> page \<Rightarrow> thrown + page" where
  "pollTick r st =
     (if pollInterval st then rerender st (fetchSummaries True r st) else Inr st)"

text \<open>
  The first effect of \<^verbatim>\<open>Home\<close>: \<^verbatim>\<open>fetchSummaries()\<close> on mount. The polling effect has
  run once on the initial, empty list and has set no interval.
\<close>

definition mount :: "string option \<Rightarrow> response \<Rightarrow> thrown + page" where
  "mount env r = rerender (initial env) (fetchSummaries False r (initial env))"

definition maxSize :: nat where
  "maxSize = 5 * 1024 * 1024"

text \<open>
  The \<^verbatim>\<open>try\<close> block of \<^verbatim>\<open>handleFileUpload\<close> up to the second \<^verbatim>\<open>response.json()\<close>: it
  completes, or throws.
\<close>

definition upload_try :: "response \<Rightarrow> thrown + unit" where
  "upload_try r =
     (case r of
        Rejected t \<Rightarrow> Inl t
      | Response ok body \<Rightarrow>
          if \<not> ok then
            (let errorData = (case body of
                                Inl t \<Rightarrow> JObj [(''detail'', JStr ''Upload failed'')]
                              | Inr v \<Rightarrow> v)
             in if errorData = JNull then Inl (nullRead ''detail'')
                else Inl (Error (if truthy (getProp errorData ''detail'')
                                 then js_String (the (getProp errorData ''detail''))
                                 else ''Failed to upload PDF'')))
          else (case body of Inl t \<Rightarrow> Inl t | Inr data \<Rightarrow> Inr ()))"

text \<open>
  \<^verbatim>\<open>handleFileUpload(file)\<close>. \<open>upload\<close> is the outcome of the \<^verbatim>\<open>POST\<close>, \<open>listing\<close> the outcome of
  the \<^verbatim>\<open>GET\<close> that \<^verbatim>\<open>fetchSummaries()\<close> issues after a successful upload.
\<close>

definition handleFileUpload :: "File \<Rightarrow> response \<Rightarrow> response \<Rightarrow> page \<Rightarrow> page" where
  "handleFileUpload f upload listing st =
     (if file_type f \<noteq> ''application/pdf'' \<and> \<not> endsWith (toLowerCase (file_name f)) ''.pdf''
      then st\<lparr>uploadError := Some ''Only PDF files are allowed''\<rparr>
      else if file_size f > maxSize
      then st\<lparr>uploadError := Some ''File size must be less than 5MB''\<rparr>
      else
        (let st1 = st\<lparr>uploading := True, uploadError := None, uploadSuccess := False\<rparr>;
             st2 = st1\<lparr>requests := requests st1 @
                      [POST (apiUrl st1 @ ''/summarize?mode='' @
                             encodeURIComponent (extractionMode st1)) f]\<rparr>;
             st3 = (case upload_try upload of
                      Inl err \<Rightarrow>
                        st2\<lparr>uploadError :=
                              Some (messageOr err ''An error occurred during upload'')\<rparr>
                    | Inr u \<Rightarrow>
                        (let st4 = fetchSummaries False listing (st2\<lparr>uploadSuccess := True\<rparr>)
                         in st4\<lparr>timeouts := timeouts st4 @ [ResetUploadSuccess]\<rparr>))
         in st3\<lparr>uploading := False\<rparr>))"

text \<open>
  \<^verbatim>\<open>handleFileSelect\<close> and \<^verbatim>\<open>handleDrop\<close> pass the first file of the list, if there is one,
  to \<^verbatim>\<open>handleFileUpload\<close>.
\<close>

definition handleFileSelect :: "File list \<Rightarrow> response \<Rightarrow> response \<Rightarrow> page \<Rightarrow> page" where
  "handleFileSelect files upload listing st =
     (case files of [] \<Rightarrow> st | f # fs \<Rightarrow> handleFileUpload f upload listing st)"

definition handleDrop :: "File list \<Rightarrow> response \<Rightarrow> response \<Rightarrow> page \<Rightarrow> page" where
  "handleDrop files upload listing st =
     (let st1 = st\<lparr>isDragging := False\<rparr>
      in case files of [] \<Rightarrow> st1 | f # fs \<Rightarrow> handleFileUpload f upload listing st1)"

definition getStatusColor :: "string \<Rightarrow> string" where
  "getStatusColor s =
     (let l = toLowerCase s
      in if l = ''uploaded'' then ''bg-blue-100 text-blue-800''
         else if l = ''text_ready'' then ''bg-yellow-100 text-yellow-800''
         else if l = ''summary_ready'' then ''bg-green-100 text-green-800''
         else if l = ''error'' then ''bg-red-100 text-red-800''
         else ''bg-gray-100 text-gray-800'')"

section \<open>Notions used to state the properties of the page\<close>

text \<open>
  Equality of strings without regard to the case of the ASCII letters, as the claims about
  status strings and file names mean it: \<open>s\<close> is \<open>t\<close>, a string without capital letters,
  up to writing some of its letters \<open>a..z\<close> as capitals.
\<close>

definition asciiUpper :: "char \<Rightarrow> char" where
  "asciiUpper d =
     (if 97 \<le> (of_char d :: nat) \<and> (of_char d :: nat) \<le> 122
      then char_of ((of_char d :: nat) - 32) else d)"

definition equalsIgnoringCase :: "string \<Rightarrow> string \<Rightarrow> bool" where
  "equalsIgnoringCase s t = list_all2 (\<lambda>c d. c = d \<or> c = asciiUpper d) s t"

text \<open>An ASCII character that is not a capital letter.\<close>

definition plainLower :: "char \<Rightarrow> bool" where
  "plainLower d =
     ((of_char d :: nat) < 128 \<and> \<not> (65 \<le> (of_char d :: nat) \<and> (of_char d :: nat) \<le> 90))"

text \<open>\<^verbatim>\<open>Array.isArray(v)\<close>\<close>

definition isArray :: "json \<Rightarrow> bool" where
  "isArray v = (case v of JArr xs \<Rightarrow> True | _ \<Rightarrow> False)"

text \<open>
  The declaration \<^verbatim>\<open>const data: SummariesResponse\<close> of \<^verbatim>\<open>fetchSummaries\<close>, as far as the member
  \<^verbatim>\<open>summaries\<close> goes: the parsed body carries an array there, or, as the \<^verbatim>\<open>|| []\<close> of the
  source foresees, nothing or \<^verbatim>\<open>null\<close>.
\<close>

definition summariesDeclared :: "response \<Rightarrow> bool" where
  "summariesDeclared r =
     (case r of
        Response ok (Inr data) \<Rightarrow>
          (case getProp data ''summaries'' of
             None \<Rightarrow> True
           | Some JNull \<Rightarrow> True
           | Some (JArr xs) \<Rightarrow> True
           | Some _ \<Rightarrow> False)
      | _ \<Rightarrow> True)"

section \<open>The document pipeline behind the page\<close>

text \<open>
  The page talks to a backend (document store, work queues, two workers and a coordinator)
  whose code is not among the source files of \<^verbatim>\<open>frontend/\<close>. The definitions of this section
  are written from the specification of that pipeline.
\<close>

text \<open>Modelled from the spec: the \<^verbatim>\<open>status\<close> of a Document (the backend's store is missing).\<close>

datatype status = UPLOADED | TEXT_READY | SUMMARY_READY | ERROR

text \<open>
  Modelled from the spec: the Document record of the data model (the backend's store is
  missing). \<^verbatim>\<open>id\<close>, \<^verbatim>\<open>filename\<close>, \<^verbatim>\<open>status\<close>, \<^verbatim>\<open>summary\<close> and \<^verbatim>\<open>updated_at\<close> carry the prefix \<open>doc_\<close>.
\<close>

record document =
  doc_id :: string
  doc_filename :: string
  doc_status :: status
  extracted_text :: "string option"
  doc_summary :: "string option"
  error_detail :: "string option"
  doc_updated_at :: nat
  raw_content_ref :: string

text \<open>Modelled from the spec: the failures of the Document Store contract (the store is missing).\<close>

datatype store_error = AlreadyExists | NotFound | Conflict

text \<open>Modelled from the spec: one record per document, keyed by its id (the store is missing).\<close>

type_synonym document_store = "string \<rightharpoonup> document"

text \<open>
  Modelled from the spec: \<^verbatim>\<open>create(id, filename, raw_content_ref)\<close> of the Document Store (missing);
  it fails with \<open>AlreadyExists\<close> when the id collides. The result is paired with the store
  after the call.
\<close>

definition create ::
  "document_store \<Rightarrow> string \<Rightarrow> string \<Rightarrow> string \<Rightarrow> nat \<Rightarrow> (store_error + document) \<times> document_store" where
  "create s i name ref now =
     (case s i of
        Some d \<Rightarrow> (Inl AlreadyExists, s)
      | None \<Rightarrow>
          (let d = \<lparr>doc_id = i, doc_filename = name, doc_status = UPLOADED,
                    extracted_text = None, doc_summary = None, error_detail = None,
                    doc_updated_at = now, raw_content_ref = ref\<rparr>
           in (Inr d, s(i \<mapsto> d))))"

text \<open>Modelled from the spec: \<^verbatim>\<open>get(id)\<close> of the Document Store (missing).\<close>

definition get :: "document_store \<Rightarrow> string \<Rightarrow> store_error + document" where
  "get s i = (case s i of None \<Rightarrow> Inl NotFound | Some d \<Rightarrow> Inr d)"

text \<open>Modelled from the spec: the two processing stages (the workers are missing).\<close>

datatype stage = Extraction | Summarization

text \<open>
  Modelled from the spec: the mutations that the workers (missing) hand to \<^verbatim>\<open>update\<close>: the
  extracted text with \<open>TEXT_READY\<close>, the summary with \<open>SUMMARY_READY\<close>, and the failure of
  a stage with \<open>ERROR\<close> and its detail.
\<close>

datatype mutation =
    SetExtractedText string
  | SetSummary string
  | SetError stage string

text \<open>
  Modelled from the spec: the expected pre-state of each mutation (workers missing):
  \<open>UPLOADED\<close> for the extraction stage, \<open>TEXT_READY\<close> for the summarization stage.
\<close>

fun expected_status :: "mutation \<Rightarrow> status" where
  "expected_status (SetExtractedText t) = UPLOADED"
| "expected_status (SetSummary t) = TEXT_READY"
| "expected_status (SetError Extraction r) = UPLOADED"
| "expected_status (SetError Summarization r) = TEXT_READY"

text \<open>
  Modelled from the spec: the field change of a mutation (store missing); \<^verbatim>\<open>updated_at\<close> is
  set to the current time together with it.
\<close>

fun mutate :: "mutation \<Rightarrow> nat \<Rightarrow> document \<Rightarrow> document" where
  "mutate (SetExtractedText t) now d =
     d\<lparr>extracted_text := Some t, doc_status := TEXT_READY, doc_updated_at := now\<rparr>"
| "mutate (SetSummary t) now d =
     d\<lparr>doc_summary := Some t, doc_status := SUMMARY_READY, doc_updated_at := now\<rparr>"
| "mutate (SetError g r) now d =
     d\<lparr>error_detail := Some r, doc_status := ERROR, doc_updated_at := now\<rparr>"

text \<open>
  Modelled from the spec: \<^verbatim>\<open>update(id, mutation)\<close> of the Document Store (missing), a
  compare-and-set on the stored status: \<open>Conflict\<close> when it is not the expected pre-state.
  The call is one atomic step; the result is paired with the store after the call.
\<close>

definition update ::
  "document_store \<Rightarrow> string \<Rightarrow> mutation \<Rightarrow> nat \<Rightarrow> (store_error + document) \<times> document_store" where
  "update s i m now =
     (case s i of
        None \<Rightarrow> (Inl NotFound, s)
      | Some d \<Rightarrow>
          if doc_status d \<noteq> expected_status m then (Inl Conflict, s)
          else (Inr (mutate m now d), s(i \<mapsto> mutate m now d)))"

text \<open>Modelled from the spec: the kind of a Job (the work queue is missing).\<close>

datatype job_kind = EXTRACT | SUMMARIZE

text \<open>Modelled from the spec: the extraction mode chosen at submission (coordinator missing).\<close>

datatype extraction_mode = plain_text | markdown

text \<open>
  Modelled from the spec: a Job of the work queue (missing), with the extraction mode it
  carries and its redelivery counter.
\<close>

record job =
  document_id :: string
  job_kind :: job_kind
  job_mode :: extraction_mode
  redeliveries :: nat

text \<open>
  Modelled from the spec: the shared state of the pipeline (missing): the Document Store
  and one queue for each kind of job.
\<close>

record pipeline =
  store :: document_store
  extract_queue :: "job list"
  summarize_queue :: "job list"

text \<open>Modelled from the spec: the pipeline (missing) before any submission.\<close>

definition empty_pipeline :: pipeline where
  "empty_pipeline = \<lparr>store = Map.empty, extract_queue = [], summarize_queue = []\<rparr>"

text \<open>
  Modelled from the spec: what a call of an external capability (missing) comes to: its
  result, a permanent failure or a transient one.
\<close>

datatype 'a outcome = Succeeded 'a | PermanentFailure string | TransientFailure string

text \<open>Modelled from the spec: \<^verbatim>\<open>acknowledge\<close> of the work queue (missing) removes the job.\<close>

definition acknowledge :: "job \<Rightarrow> job list \<Rightarrow> job list" where
  "acknowledge j q = remove1 j q"

text \<open>
  Modelled from the spec: a job of the work queue (missing) that is not acknowledged becomes
  visible again, with its redelivery counter advanced.
\<close>

definition redeliver :: "job \<Rightarrow> job list \<Rightarrow> job list" where
  "redeliver j q = remove1 j q @ [j\<lparr>redeliveries := Suc (redeliveries j)\<rparr>]"

text \<open>
  Modelled from the spec: the Extraction Worker (missing) once the capability has
  answered. Success: \<^verbatim>\<open>update\<close> to \<open>TEXT_READY\<close> with the text, then a \<open>SUMMARIZE\<close> job, then
  the acknowledgement; a \<open>Conflict\<close> is an idempotent skip. Permanent failure, or a
  transient one with the retry budget used up: \<^verbatim>\<open>update\<close> to \<open>ERROR\<close>, then the
  acknowledgement. Another transient failure: no acknowledgement.
\<close>

definition extraction_commit :: "nat \<Rightarrow> nat \<Rightarrow> job \<Rightarrow> string outcome \<Rightarrow> pipeline \<Rightarrow> pipeline" where
  "extraction_commit max_retries now j out p =
     (case out of
        Succeeded t \<Rightarrow>
          (case update (store p) (document_id j) (SetExtractedText t) now of
             (Inr d, s) \<Rightarrow>
               p\<lparr>store := s,
                 summarize_queue := summarize_queue p @
                   [\<lparr>document_id = document_id j, job_kind = SUMMARIZE,
                     job_mode = job_mode j, redeliveries = 0\<rparr>],
                 extract_queue := acknowledge j (extract_queue p)\<rparr>
           | (Inl e, s) \<Rightarrow> p\<lparr>extract_queue := acknowledge j (extract_queue p)\<rparr>)
      | PermanentFailure r \<Rightarrow>
          p\<lparr>store := snd (update (store p) (document_id j) (SetError Extraction r) now),
            extract_queue := acknowledge j (extract_queue p)\<rparr>
      | TransientFailure r \<Rightarrow>
          if Suc (redeliveries j) < max_retries
          then p\<lparr>extract_queue := redeliver j (extract_queue p)\<rparr>
          else p\<lparr>store := snd (update (store p) (document_id j) (SetError Extraction r) now),
                 extract_queue := acknowledge j (extract_queue p)\<rparr>)"

text \<open>
  Modelled from the spec: one round of the Extraction Worker (missing): dequeue, \<^verbatim>\<open>get\<close> the
  document, acknowledge and skip when its status is not \<open>UPLOADED\<close>, otherwise call the
  capability and commit. With no job the worker waits; a failed \<^verbatim>\<open>get\<close> leaves the job
  unacknowledged.
\<close>

definition extraction_worker :: "nat \<Rightarrow> nat \<Rightarrow> string outcome \<Rightarrow> pipeline \<Rightarrow> pipeline" where
  "extraction_worker max_retries now out p =
     (case extract_queue p of
        [] \<Rightarrow> p
      | j # q \<Rightarrow>
          (case get (store p) (document_id j) of
             Inl e \<Rightarrow> p
           | Inr d \<Rightarrow>
               if doc_status d \<noteq> UPLOADED
               then p\<lparr>extract_queue := acknowledge j (extract_queue p)\<rparr>
               else extraction_commit max_retries now j out p))"

text \<open>
  Modelled from the spec: the Summarization Worker (missing) once the capability has
  answered; symmetric to the extraction stage, and no further job on success.
\<close>

definition summarization_commit :: "nat \<Rightarrow> nat \<Rightarrow> job \<Rightarrow> string outcome \<Rightarrow> pipeline \<Rightarrow> pipeline" where
  "summarization_commit max_retries now j out p =
     (case out of
        Succeeded t \<Rightarrow>
          p\<lparr>store := snd (update (store p) (document_id j) (SetSummary t) now),
            summarize_queue := acknowledge j (summarize_queue p)\<rparr>
      | PermanentFailure r \<Rightarrow>
          p\<lparr>store := snd (update (store p) (document_id j) (SetError Summarization r) now),
            summarize_queue := acknowledge j (summarize_queue p)\<rparr>
      | TransientFailure r \<Rightarrow>
          if Suc (redeliveries j) < max_retries
          then p\<lparr>summarize_queue := redeliver j (summarize_queue p)\<rparr>
          else p\<lparr>store := snd (update (store p) (document_id j) (SetError Summarization r) now),
                 summarize_queue := acknowledge j (summarize_queue p)\<rparr>)"

text \<open>
  Modelled from the spec: one round of the Summarization Worker (missing), guarded on the
  status \<open>TEXT_READY\<close>.
\<close>

definition summarization_worker :: "nat \<Rightarrow> nat \<Rightarrow> string outcome \<Rightarrow> pipeline \<Rightarrow> pipeline" where
  "summarization_worker max_retries now out p =
     (case summarize_queue p of
        [] \<Rightarrow> p
      | j # q \<Rightarrow>
          (case get (store p) (document_id j) of
             Inl e \<Rightarrow> p
           | Inr d \<Rightarrow>
               if doc_status d \<noteq> TEXT_READY
               then p\<lparr>summarize_queue := acknowledge j (summarize_queue p)\<rparr>
               else summarization_commit max_retries now j out p))"

text \<open>Modelled from the spec: the errors of \<^verbatim>\<open>submit\<close> (the coordinator is missing).\<close>

datatype submit_error = InvalidFileType | FileTooLarge | StoreFailed store_error

text \<open>
  Modelled from the spec: what \<^verbatim>\<open>submit\<close> of the coordinator (missing) receives: the fresh id,
  the file name, content type and size, the reference under which the storage
  collaborator keeps the bytes, and the extraction mode.
\<close>

record submission =
  new_id :: string
  sub_filename :: string
  content_type :: string
  byte_size :: nat
  stored_ref :: string
  sub_mode :: extraction_mode

text \<open>
  Modelled from the spec: \<^verbatim>\<open>submit\<close> of the Pipeline Coordinator (missing): the type and size
  checks come before any record, then \<^verbatim>\<open>create\<close> and the \<open>EXTRACT\<close> job.
\<close>

definition submit :: "nat \<Rightarrow> nat \<Rightarrow> submission \<Rightarrow> pipeline \<Rightarrow> (submit_error + string) \<times> pipeline" where
  "submit max_size now u p =
     (if content_type u \<noteq> ''application/pdf'' then (Inl InvalidFileType, p)
      else if max_size < byte_size u then (Inl FileTooLarge, p)
      else (case create (store p) (new_id u) (sub_filename u) (stored_ref u) now of
              (Inl e, s) \<Rightarrow> (Inl (StoreFailed e), p)
            | (Inr d, s) \<Rightarrow>
                (Inr (new_id u),
                 p\<lparr>store := s,
                   extract_queue := extract_queue p @
                     [\<lparr>document_id = new_id u, job_kind = EXTRACT,
                       job_mode = sub_mode u, redeliveries = 0\<rparr>]\<rparr>)))"

text \<open>Modelled from the spec: the configured maximum size and retry budget (pipeline missing).\<close>

record config =
  max_size :: nat
  max_retries :: nat

text \<open>
  Modelled from the spec: what can happen to the pipeline (missing), each with the current
  time: a submission, a round of either worker, and the commit of a worker that read its
  document earlier, at any later moment and for any job (workers run in parallel and jobs
  are delivered at least once).
\<close>

datatype event =
    Submit nat submission
  | ExtractionStep nat "string outcome"
  | SummarizationStep nat "string outcome"
  | ExtractionCommit nat job "string outcome"
  | SummarizationCommit nat job "string outcome"

text \<open>Modelled from the spec: the effect of one event on the pipeline (missing).\<close>

fun step :: "config \<Rightarrow> event \<Rightarrow> pipeline \<Rightarrow> pipeline" where
  "step c (Submit now u) p = snd (submit (max_size c) now u p)"
| "step c (ExtractionStep now out) p = extraction_worker (max_retries c) now out p"
| "step c (SummarizationStep now out) p = summarization_worker (max_retries c) now out p"
| "step c (ExtractionCommit now j out) p = extraction_commit (max_retries c) now j out p"
| "step c (SummarizationCommit now j out) p = summarization_commit (max_retries c) now j out p"

text \<open>
  Modelled from the spec: the states that the pipeline (missing) visits over time, from
  \<open>p\<close> on, one for each event.
\<close>

fun states :: "config \<Rightarrow> event list \<Rightarrow> pipeline \<Rightarrow> pipeline list" where
  "states c [] p = [p]"
| "states c (e # es) p = p # states c es (step c e p)"

text \<open>Modelled from the spec: the status of a document in the store (missing), if it exists.\<close>

definition status_of :: "pipeline \<Rightarrow> string \<Rightarrow> status option" where
  "status_of p i = map_option doc_status (store p i)"

text \<open>
  Modelled from the spec: the transitions of the state machine of a Document (pipeline
  missing).
\<close>

fun permitted :: "status \<Rightarrow> status \<Rightarrow> bool" where
  "permitted UPLOADED TEXT_READY = True"
| "permitted TEXT_READY SUMMARY_READY = True"
| "permitted UPLOADED ERROR = True"
| "permitted TEXT_READY ERROR = True"
| "permitted a b = False"

text \<open>
  Modelled from the spec: one moment of a document's life in the pipeline (missing) to the
  next: it does not exist yet, it is created as \<open>UPLOADED\<close>, it keeps its status, or it
  takes a permitted transition.
\<close>

fun advances :: "status option \<Rightarrow> status option \<Rightarrow> bool" where
  "advances None None = True"
| "advances None (Some b) = (b = UPLOADED)"
| "advances (Some a) None = False"
| "advances (Some a) (Some b) = (a = b \<or> permitted a b)"

text \<open>
  Modelled from the spec: the invariant of the data model (store missing) that ties the
  optional fields to the status. An extracted text is present in \<open>TEXT_READY\<close> and
  \<open>SUMMARY_READY\<close>, and besides these only in an \<open>ERROR\<close> that came after the extraction;
  a summary is present exactly in \<open>SUMMARY_READY\<close>.
\<close>

definition consistent :: "document \<Rightarrow> bool" where
  "consistent d =
     ((extracted_text d \<noteq> None \<longrightarrow> doc_status d \<in> {TEXT_READY, SUMMARY_READY, ERROR}) \<and>
      (doc_status d \<in> {TEXT_READY, SUMMARY_READY} \<longrightarrow> extracted_text d \<noteq> None) \<and>
      ((doc_summary d \<noteq> None) = (doc_status d = SUMMARY_READY)))"

section \<open>Lower case and comparison without regard to case\<close>

lemma toLowerCase_append: "toLowerCase (a @ b) = toLowerCase a @ toLowerCase b"
  by (simp add: toLowerCase_def)

lemma endsWith_append: "endsWith (a @ b) b"
  by (simp add: endsWith_def)

lemma of_char_le: "(of_char c :: nat) < 256"
  by (cases c) (simp add: of_char_def)

lemma toLowerCase_char_ascii_lower:
  assumes "97 \<le> (of_char d :: nat)" "(of_char d :: nat) \<le> 122"
  shows "toLowerCase_char c = d \<longleftrightarrow> c = d \<or> (of_char c :: nat) + 32 = of_char d"
proof -
  let ?n = "of_char c :: nat"
  have lt: "?n < 256" by (rule of_char_le)
  consider (upper) "65 \<le> ?n" "?n \<le> 90"
    | (latin) "192 \<le> ?n" "?n \<le> 222" "?n \<noteq> 215"
    | (other) "\<not> (65 \<le> ?n \<and> ?n \<le> 90)" "\<not> (192 \<le> ?n \<and> ?n \<le> 222 \<and> ?n \<noteq> 215)"
    by blast
  then show ?thesis
  proof cases
    case upper
    then have low: "toLowerCase_char c = char_of (?n + 32)"
      by (simp add: toLowerCase_char_def)
    have "(char_of (?n + 32) = d) = ((of_char (char_of (?n + 32) :: char) :: nat) = of_char d)"
      by (simp only: of_char_eq_iff)
    also have "\<dots> = (?n + 32 = of_char d)"
      using upper by simp
    finally have a: "(toLowerCase_char c = d) = (?n + 32 = of_char d)"
      using low by simp
    have "c \<noteq> d" using upper assms by auto
    with a show ?thesis by simp
  next
    case latin
    then have low: "toLowerCase_char c = char_of (?n + 32)"
      by (simp add: toLowerCase_char_def)
    have "(char_of (?n + 32) = d) = ((of_char (char_of (?n + 32) :: char) :: nat) = of_char d)"
      by (simp only: of_char_eq_iff)
    also have "\<dots> = (?n + 32 = of_char d)"
      using latin lt by simp
    finally have a: "(toLowerCase_char c = d) = (?n + 32 = of_char d)"
      using low by simp
    have "c \<noteq> d" using latin assms by auto
    with a show ?thesis by simp
  next
    case other
    then have "toLowerCase_char c = c"
      by (auto simp add: toLowerCase_char_def Let_def)
    moreover have "?n + 32 \<noteq> of_char d"
      using other assms by auto
    ultimately show ?thesis by simp
  qed
qed

lemma toLowerCase_char_other:
  assumes "plainLower d" "\<not> (97 \<le> (of_char d :: nat) \<and> (of_char d :: nat) \<le> 122)"
  shows "toLowerCase_char c = d \<longleftrightarrow> c = d"
proof -
  let ?n = "of_char c :: nat"
  have lt: "?n < 256" by (rule of_char_le)
  show ?thesis
  proof (cases "(65 \<le> ?n \<and> ?n \<le> 90) \<or> (192 \<le> ?n \<and> ?n \<le> 222 \<and> ?n \<noteq> 215)")
    case True
    then have low: "toLowerCase_char c = char_of (?n + 32)"
      by (simp add: toLowerCase_char_def)
    have "(char_of (?n + 32) = d) = ((of_char (char_of (?n + 32) :: char) :: nat) = of_char d)"
      by (simp only: of_char_eq_iff)
    also have "\<dots> = False"
      using True lt assms by (auto simp add: plainLower_def)
    finally have "toLowerCase_char c \<noteq> d"
      using low by simp
    moreover have "c \<noteq> d" using True assms by (auto simp add: plainLower_def)
    ultimately show ?thesis by simp
  next
    case False
    then have "toLowerCase_char c = c"
      by (auto simp add: toLowerCase_char_def Let_def)
    then show ?thesis by simp
  qed
qed

lemma toLowerCase_char_plain:
  assumes "plainLower d"
  shows "toLowerCase_char c = d \<longleftrightarrow> c = d \<or> c = asciiUpper d"
proof (cases "97 \<le> (of_char d :: nat) \<and> (of_char d :: nat) \<le> 122")
  case False
  then show ?thesis
    using toLowerCase_char_other [OF assms, of c] by (auto simp add: asciiUpper_def)
next
  case True
  then have r: "97 \<le> (of_char d :: nat)" "(of_char d :: nat) \<le> 122"
    by simp_all
  have "(c = asciiUpper d) = ((of_char c :: nat) = of_char (asciiUpper d))"
    by (simp only: of_char_eq_iff)
  also have "\<dots> = ((of_char c :: nat) = of_char d - 32)"
    using r by (simp add: asciiUpper_def)
  also have "\<dots> = ((of_char c :: nat) + 32 = of_char d)"
    using r by auto
  finally show ?thesis
    using toLowerCase_char_ascii_lower [OF r, of c] by simp
qed

text \<open>
  For a string \<open>t\<close> without capital letters, \<^verbatim>\<open>s.toLowerCase() === t\<close> holds exactly for the
  strings \<open>s\<close> that are \<open>t\<close> up to the case of the letters.
\<close>

lemma toLowerCase_eq_plain:
  "list_all plainLower t \<Longrightarrow> toLowerCase s = t \<longleftrightarrow> equalsIgnoringCase s t"
proof (induction t arbitrary: s)
  case Nil
  then show ?case by (simp add: toLowerCase_def equalsIgnoringCase_def)
next
  case (Cons d t)
  show ?case
  proof (cases s)
    case Nil
    then show ?thesis by (simp add: toLowerCase_def equalsIgnoringCase_def)
  next
    case (Cons c s')
    from Cons.prems have d: "plainLower d" and t: "list_all plainLower t" by simp_all
    have "toLowerCase (c # s') = d # t \<longleftrightarrow> toLowerCase_char c = d \<and> toLowerCase s' = t"
      by (simp add: toLowerCase_def)
    also have "\<dots> \<longleftrightarrow> (c = d \<or> c = asciiUpper d) \<and> equalsIgnoringCase s' t"
      using toLowerCase_char_plain [OF d] Cons.IH [OF t] by simp
    also have "\<dots> \<longleftrightarrow> equalsIgnoringCase (c # s') (d # t)"
      by (simp add: equalsIgnoringCase_def)
    finally show ?thesis using Cons by simp
  qed
qed

lemma plain_names:
  "list_all plainLower ''uploaded''" "list_all plainLower ''text_ready''"
  "list_all plainLower ''summary_ready''" "list_all plainLower ''error''"
  "list_all plainLower ''.pdf''"
  by (simp_all add: plainLower_def)

section \<open>Uploading a file\<close>

lemma requests_fetchSummaries:
  "requests (fetchSummaries silent r st) = requests st @ [GET (apiUrl st @ ''/summaries'')]"
  by (simp add: fetchSummaries_def setSummaries_def Let_def split: sum.splits)

lemma handleFileUpload_type:
  "file_type f \<noteq> ''application/pdf'' \<Longrightarrow> \<not> endsWith (toLowerCase (file_name f)) ''.pdf'' \<Longrightarrow>
   handleFileUpload f u l st = st\<lparr>uploadError := Some ''Only PDF files are allowed''\<rparr>"
  by (simp add: handleFileUpload_def)

lemma handleFileUpload_size:
  "file_type f = ''application/pdf'' \<or> endsWith (toLowerCase (file_name f)) ''.pdf'' \<Longrightarrow>
   maxSize < file_size f \<Longrightarrow>
   handleFileUpload f u l st = st\<lparr>uploadError := Some ''File size must be less than 5MB''\<rparr>"
  by (auto simp add: handleFileUpload_def)

lemma handleFileUpload_sent:
  "file_type f = ''application/pdf'' \<or> endsWith (toLowerCase (file_name f)) ''.pdf'' \<Longrightarrow>
   file_size f \<le> maxSize \<Longrightarrow>
   requests (handleFileUpload f u l st) =
     requests st @ POST (apiUrl st @ ''/summarize?mode='' @ encodeURIComponent (extractionMode st)) f
       # (if upload_try u = Inr () then [GET (apiUrl st @ ''/summaries'')] else [])"
  by (auto simp add: handleFileUpload_def Let_def requests_fetchSummaries apiUrl_def split: sum.splits)

lemma handleFileUpload_sent_neq:
  "file_type f = ''application/pdf'' \<or> endsWith (toLowerCase (file_name f)) ''.pdf'' \<Longrightarrow>
   file_size f \<le> maxSize \<Longrightarrow>
   requests (handleFileUpload f u l st) \<noteq> requests st"
  by (simp add: handleFileUpload_sent)

lemma handleFileUpload_uploaded:
  "file_type f = ''application/pdf'' \<or> endsWith (toLowerCase (file_name f)) ''.pdf'' \<Longrightarrow>
   file_size f \<le> maxSize \<Longrightarrow> upload_try u = Inr () \<Longrightarrow>
   uploadError (handleFileUpload f u l st) = None"
  by (auto simp add: handleFileUpload_def Let_def fetchSummaries_def setSummaries_def
      split: sum.splits)

lemma handleFileUpload_type_iff:
  "(handleFileUpload f u l st = st\<lparr>uploadError := Some ''Only PDF files are allowed''\<rparr>) =
   (file_type f \<noteq> ''application/pdf'' \<and> \<not> endsWith (toLowerCase (file_name f)) ''.pdf'')"
proof (cases "file_type f \<noteq> ''application/pdf'' \<and> \<not> endsWith (toLowerCase (file_name f)) ''.pdf''")
  case True
  then show ?thesis by (simp add: handleFileUpload_type)
next
  case False
  then have ok: "file_type f = ''application/pdf'' \<or> endsWith (toLowerCase (file_name f)) ''.pdf''"
    by blast
  have "handleFileUpload f u l st \<noteq> st\<lparr>uploadError := Some ''Only PDF files are allowed''\<rparr>"
  proof (cases "maxSize < file_size f")
    case True
    have "uploadError (handleFileUpload f u l st) = Some ''File size must be less than 5MB''"
      by (simp add: handleFileUpload_size [OF ok True])
    then show ?thesis by auto
  next
    case False
    then have "requests (handleFileUpload f u l st) \<noteq> requests st"
      by (simp add: handleFileUpload_sent [OF ok])
    then show ?thesis by auto
  qed
  with False show ?thesis by simp
qed

lemma requests_handleFileUpload_cases:
  "requests (handleFileUpload f u l st) = requests st \<or>
   ((file_type f = ''application/pdf'' \<or> endsWith (toLowerCase (file_name f)) ''.pdf'')
    \<and> file_size f \<le> maxSize)"
  by (cases "file_type f \<noteq> ''application/pdf'' \<and> \<not> endsWith (toLowerCase (file_name f)) ''.pdf''";
      cases "maxSize < file_size f")
     (auto simp add: handleFileUpload_type handleFileUpload_size)

lemma apiUrl_initial_None: "apiUrl (initial None) = ''http://localhost:8000''"
  by (simp add: apiUrl_def initial_def)

lemma encodeURIComponent_plain_text: "encodeURIComponent ''plain_text'' = ''plain_text''"
  by code_simp

lemma requests_initial: "requests (initial env) = []"
  by (simp add: initial_def)

lemma extractionMode_initial: "extractionMode (initial env) = ''plain_text''"
  by (simp add: initial_def)

text \<open>
  Claim C1, as it is written, fails on the page: a file whose content type is not
  \<^verbatim>\<open>application/pdf\<close> but whose name ends in \<^verbatim>\<open>.pdf\<close> passes the validation, no error is shown
  and the upload request is sent.
\<close>

theorem pdf_named_text_file_is_uploaded:
  "file_type \<lparr>file_name = ''notes.pdf'', file_type = ''text/plain'', file_size = 10\<rparr>
     \<noteq> ''application/pdf''
   \<and> requests (handleFileUpload \<lparr>file_name = ''notes.pdf'', file_type = ''text/plain'', file_size = 10\<rparr>
        (Response True (Inr (JObj []))) (Response True (Inr (JObj []))) (initial None))
     = [POST ''http://localhost:8000/summarize?mode=plain_text''
          \<lparr>file_name = ''notes.pdf'', file_type = ''text/plain'', file_size = 10\<rparr>,
        GET ''http://localhost:8000/summaries'']
   \<and> uploadError (handleFileUpload \<lparr>file_name = ''notes.pdf'', file_type = ''text/plain'', file_size = 10\<rparr>
        (Response True (Inr (JObj []))) (Response True (Inr (JObj []))) (initial None)) = None"
proof (intro conjI)
  let ?f = "\<lparr>file_name = ''notes.pdf'', file_type = ''text/plain'', file_size = 10\<rparr>"
  let ?r = "Response True (Inr (JObj []))"
  have low: "toLowerCase ''notes.pdf'' = ''notes.pdf''" by code_simp
  have ok: "file_type ?f = ''application/pdf'' \<or> endsWith (toLowerCase (file_name ?f)) ''.pdf''"
    by (simp add: low endsWith_def)
  have small: "file_size ?f \<le> maxSize" by (simp add: maxSize_def)
  have up: "upload_try ?r = Inr ()" by (simp add: upload_try_def)
  show "file_type ?f \<noteq> ''application/pdf''" by simp
  show "requests (handleFileUpload ?f ?r ?r (initial None))
     = [POST ''http://localhost:8000/summarize?mode=plain_text'' ?f,
        GET ''http://localhost:8000/summaries'']"
    by (simp add: handleFileUpload_sent [OF ok small] up apiUrl_initial_None
        encodeURIComponent_plain_text requests_initial extractionMode_initial)
  show "uploadError (handleFileUpload ?f ?r ?r (initial None)) = None"
    by (rule handleFileUpload_uploaded [OF ok small up])
qed

text \<open>
  Claim C1, amended. A file whose content type is not \<^verbatim>\<open>application/pdf\<close> and whose name does
  not end in \<^verbatim>\<open>.pdf\<close> (compared in lower case) is refused with
  \<^verbatim>\<open>Only PDF files are allowed\<close>: the only change of the state is that message, and no request
  is sent. For every submission, through \<^verbatim>\<open>handleFileUpload\<close>, \<^verbatim>\<open>handleFileSelect\<close> or
  \<^verbatim>\<open>handleDrop\<close>, a request is issued only when the file has passed both the type check and
  the size check, and the first request issued is the upload.
\<close>

theorem upload_only_after_validation:
  "(file_type f \<noteq> ''application/pdf'' \<and> \<not> endsWith (toLowerCase (file_name f)) ''.pdf'' \<longrightarrow>
      handleFileUpload f u l st = st\<lparr>uploadError := Some ''Only PDF files are allowed''\<rparr>
      \<and> requests (handleFileUpload f u l st) = requests st)
   \<and> (requests (handleFileUpload f u l st) \<noteq> requests st \<longrightarrow>
        (file_type f = ''application/pdf'' \<or> endsWith (toLowerCase (file_name f)) ''.pdf'')
        \<and> file_size f \<le> maxSize
        \<and> requests (handleFileUpload f u l st) =
            requests st @
            POST (apiUrl st @ ''/summarize?mode='' @ encodeURIComponent (extractionMode st)) f
            # (if upload_try u = Inr () then [GET (apiUrl st @ ''/summaries'')] else []))
   \<and> handleFileSelect (f # fs) u l st = handleFileUpload f u l st
   \<and> handleDrop (f # fs) u l st = handleFileUpload f u l (st\<lparr>isDragging := False\<rparr>)
   \<and> requests (handleFileSelect [] u l st) = requests st
   \<and> requests (handleDrop [] u l st) = requests st"
proof (intro conjI impI)
  assume bad: "file_type f \<noteq> ''application/pdf'' \<and> \<not> endsWith (toLowerCase (file_name f)) ''.pdf''"
  then show "handleFileUpload f u l st = st\<lparr>uploadError := Some ''Only PDF files are allowed''\<rparr>"
    by (simp add: handleFileUpload_type)
  then show "requests (handleFileUpload f u l st) = requests st"
    by simp
next
  assume sent: "requests (handleFileUpload f u l st) \<noteq> requests st"
  with requests_handleFileUpload_cases [of f u l st]
  have ok: "file_type f = ''application/pdf'' \<or> endsWith (toLowerCase (file_name f)) ''.pdf''"
    and small: "file_size f \<le> maxSize"
    by blast+
  show "file_type f = ''application/pdf'' \<or> endsWith (toLowerCase (file_name f)) ''.pdf''"
    by (rule ok)
  show "file_size f \<le> maxSize" by (rule small)
  show "requests (handleFileUpload f u l st) =
            requests st @
            POST (apiUrl st @ ''/summarize?mode='' @ encodeURIComponent (extractionMode st)) f
            # (if upload_try u = Inr () then [GET (apiUrl st @ ''/summaries'')] else [])"
    by (rule handleFileUpload_sent [OF ok small])
qed (simp_all add: handleFileSelect_def handleDrop_def)

text \<open>Both hypotheses of C1 at concrete files: an image is refused, a small PDF passes.\<close>

theorem upload_only_after_validation_witness:
  "handleFileUpload \<lparr>file_name = ''photo.png'', file_type = ''image/png'', file_size = 10\<rparr>
       (Response True (Inr (JObj []))) (Response True (Inr (JObj []))) (initial None)
     = (initial None)\<lparr>uploadError := Some ''Only PDF files are allowed''\<rparr>
   \<and> file_size \<lparr>file_name = ''a.pdf'', file_type = ''application/pdf'', file_size = 10\<rparr> \<le> maxSize"
proof (intro conjI)
  let ?bad = "\<lparr>file_name = ''photo.png'', file_type = ''image/png'', file_size = 10\<rparr>"
  let ?good = "\<lparr>file_name = ''a.pdf'', file_type = ''application/pdf'', file_size = 10\<rparr>"
  let ?r = "Response True (Inr (JObj []))"
  have low: "toLowerCase ''photo.png'' = ''photo.png''" by code_simp
  have h1: "file_type ?bad \<noteq> ''application/pdf'' \<and> \<not> endsWith (toLowerCase (file_name ?bad)) ''.pdf''"
    by (simp add: low endsWith_def)
  then show "handleFileUpload ?bad ?r ?r (initial None)
     = (initial None)\<lparr>uploadError := Some ''Only PDF files are allowed''\<rparr>"
    by (rule upload_only_after_validation [THEN conjunct1, THEN mp, THEN conjunct1])
  have "file_type ?good = ''application/pdf'' \<or> endsWith (toLowerCase (file_name ?good)) ''.pdf''"
    by simp
  moreover have "file_size ?good \<le> maxSize" by (simp add: maxSize_def)
  ultimately have h2: "requests (handleFileUpload ?good ?r ?r (initial None)) \<noteq> requests (initial None)"
    by (rule handleFileUpload_sent_neq)
  then show "file_size ?good \<le> maxSize"
    by (rule upload_only_after_validation
          [THEN conjunct2, THEN conjunct1, THEN mp, THEN conjunct2, THEN conjunct1])
qed

text \<open>
  Claim C7. The maximum is \<open>5 * 1024 * 1024 = 5242880\<close> bytes. A file that has passed the
  type check and is at most that large passes the size check: the upload request is sent.
  A file that has passed the type check and is strictly larger is refused with
  \<^verbatim>\<open>File size must be less than 5MB\<close>, the only change of the state. No file that is
  strictly larger causes any request, so none of them reaches the backend.
\<close>

theorem size_check_boundary:
  "maxSize = 5242880
   \<and> ((file_type f = ''application/pdf'' \<or> endsWith (toLowerCase (file_name f)) ''.pdf'')
        \<and> file_size f \<le> maxSize \<longrightarrow>
        requests (handleFileUpload f u l st) =
          requests st @
          POST (apiUrl st @ ''/summarize?mode='' @ encodeURIComponent (extractionMode st)) f
          # (if upload_try u = Inr () then [GET (apiUrl st @ ''/summaries'')] else []))
   \<and> ((file_type f = ''application/pdf'' \<or> endsWith (toLowerCase (file_name f)) ''.pdf'')
        \<and> maxSize < file_size f \<longrightarrow>
        handleFileUpload f u l st = st\<lparr>uploadError := Some ''File size must be less than 5MB''\<rparr>)
   \<and> (maxSize < file_size f \<longrightarrow> requests (handleFileUpload f u l st) = requests st)"
proof (intro conjI impI)
  show "maxSize = 5242880" by (simp add: maxSize_def)
next
  assume "(file_type f = ''application/pdf'' \<or> endsWith (toLowerCase (file_name f)) ''.pdf'')
        \<and> file_size f \<le> maxSize"
  then show "requests (handleFileUpload f u l st) =
          requests st @
          POST (apiUrl st @ ''/summarize?mode='' @ encodeURIComponent (extractionMode st)) f
          # (if upload_try u = Inr () then [GET (apiUrl st @ ''/summaries'')] else [])"
    using handleFileUpload_sent by blast
next
  assume "(file_type f = ''application/pdf'' \<or> endsWith (toLowerCase (file_name f)) ''.pdf'')
        \<and> maxSize < file_size f"
  then show "handleFileUpload f u l st = st\<lparr>uploadError := Some ''File size must be less than 5MB''\<rparr>"
    using handleFileUpload_size by blast
next
  assume "maxSize < file_size f"
  then show "requests (handleFileUpload f u l st) = requests st"
    using requests_handleFileUpload_cases [of f u l st] by auto
qed

text \<open>The boundary of C7: 5242880 bytes pass, 5242881 bytes do not, 6000000 bytes send nothing.\<close>

theorem size_check_boundary_witness:
  "requests (handleFileUpload \<lparr>file_name = ''a.pdf'', file_type = ''application/pdf'', file_size = 5242880\<rparr>
       (Rejected NotAnError) (Rejected NotAnError) (initial None))
     = [POST ''http://localhost:8000/summarize?mode=plain_text''
          \<lparr>file_name = ''a.pdf'', file_type = ''application/pdf'', file_size = 5242880\<rparr>]
   \<and> handleFileUpload \<lparr>file_name = ''a.pdf'', file_type = ''application/pdf'', file_size = 5242881\<rparr>
       (Rejected NotAnError) (Rejected NotAnError) (initial None)
     = (initial None)\<lparr>uploadError := Some ''File size must be less than 5MB''\<rparr>
   \<and> requests (handleFileUpload
        \<lparr>file_name = ''dump.bin'', file_type = ''application/octet-stream'', file_size = 6000000\<rparr>
        (Rejected NotAnError) (Rejected NotAnError) (initial None)) = []"
proof (intro conjI)
  let ?at = "\<lparr>file_name = ''a.pdf'', file_type = ''application/pdf'', file_size = 5242880\<rparr>"
  let ?over = "\<lparr>file_name = ''a.pdf'', file_type = ''application/pdf'', file_size = 5242881\<rparr>"
  let ?big = "\<lparr>file_name = ''dump.bin'', file_type = ''application/octet-stream'',
               file_size = 6000000\<rparr>"
  let ?r = "Rejected NotAnError"
  have u: "upload_try ?r \<noteq> Inr ()" by (simp add: upload_try_def)
  have "(file_type ?at = ''application/pdf'' \<or> endsWith (toLowerCase (file_name ?at)) ''.pdf'')
        \<and> file_size ?at \<le> maxSize"
    by (simp add: maxSize_def)
  then have "requests (handleFileUpload ?at ?r ?r (initial None)) =
          requests (initial None) @
          POST (apiUrl (initial None) @ ''/summarize?mode='' @
                encodeURIComponent (extractionMode (initial None))) ?at
          # (if upload_try ?r = Inr () then [GET (apiUrl (initial None) @ ''/summaries'')] else [])"
    by (rule size_check_boundary [THEN conjunct2, THEN conjunct1, THEN mp])
  then show "requests (handleFileUpload ?at ?r ?r (initial None)) =
      [POST ''http://localhost:8000/summarize?mode=plain_text'' ?at]"
    using u by (simp add: apiUrl_initial_None encodeURIComponent_plain_text requests_initial
        extractionMode_initial)
  have "(file_type ?over = ''application/pdf'' \<or> endsWith (toLowerCase (file_name ?over)) ''.pdf'')
        \<and> maxSize < file_size ?over"
    by (simp add: maxSize_def)
  then show "handleFileUpload ?over ?r ?r (initial None)
     = (initial None)\<lparr>uploadError := Some ''File size must be less than 5MB''\<rparr>"
    by (rule size_check_boundary [THEN conjunct2, THEN conjunct2, THEN conjunct1, THEN mp])
  have "maxSize < file_size ?big" by (simp add: maxSize_def)
  then have "requests (handleFileUpload ?big ?r ?r (initial None)) = requests (initial None)"
    by (rule size_check_boundary [THEN conjunct2, THEN conjunct2, THEN conjunct2, THEN mp])
  then show "requests (handleFileUpload ?big ?r ?r (initial None)) = []"
    by (simp add: requests_initial)
qed

text \<open>
  Claim C8. The type check refuses a file, with \<^verbatim>\<open>Only PDF files are allowed\<close> as the only
  change of the state, exactly when its content type is not \<^verbatim>\<open>application/pdf\<close> and its
  name in lower case does not end in \<^verbatim>\<open>.pdf\<close>. So a name that ends in \<^verbatim>\<open>.pdf\<close>, in any
  mixture of cases, is never refused by it, whatever the content type.
\<close>

theorem type_check_accepts_pdf_suffix:
  "((handleFileUpload f u l st = st\<lparr>uploadError := Some ''Only PDF files are allowed''\<rparr>) =
     (file_type f \<noteq> ''application/pdf'' \<and> \<not> endsWith (toLowerCase (file_name f)) ''.pdf''))
   \<and> (equalsIgnoringCase e ''.pdf'' \<longrightarrow> file_name f = n @ e \<longrightarrow>
        handleFileUpload f u l st \<noteq> st\<lparr>uploadError := Some ''Only PDF files are allowed''\<rparr>)"
proof (intro conjI impI)
  show "(handleFileUpload f u l st = st\<lparr>uploadError := Some ''Only PDF files are allowed''\<rparr>) =
     (file_type f \<noteq> ''application/pdf'' \<and> \<not> endsWith (toLowerCase (file_name f)) ''.pdf'')"
    by (rule handleFileUpload_type_iff)
next
  assume e: "equalsIgnoringCase e ''.pdf''" and n: "file_name f = n @ e"
  from e have "toLowerCase e = ''.pdf''"
    using toLowerCase_eq_plain [OF plain_names(5), of e] by simp
  then have "endsWith (toLowerCase (file_name f)) ''.pdf''"
    using n endsWith_append [of "toLowerCase n" "''.pdf''"] by (simp add: toLowerCase_append)
  then show "handleFileUpload f u l st \<noteq> st\<lparr>uploadError := Some ''Only PDF files are allowed''\<rparr>"
    by (simp add: handleFileUpload_type_iff)
qed

text \<open>C8 at a PNG image named \<^verbatim>\<open>Scan.PDF\<close>.\<close>

theorem type_check_accepts_pdf_suffix_witness:
  "equalsIgnoringCase ''.PDF'' ''.pdf'' \<and>
   handleFileUpload \<lparr>file_name = ''Scan.PDF'', file_type = ''image/png'', file_size = 100\<rparr>
       (Rejected NotAnError) (Rejected NotAnError) (initial None)
     \<noteq> (initial None)\<lparr>uploadError := Some ''Only PDF files are allowed''\<rparr>"
proof -
  have a: "equalsIgnoringCase ''.PDF'' ''.pdf''" by code_simp
  have b: "file_name \<lparr>file_name = ''Scan.PDF'', file_type = ''image/png'', file_size = 100\<rparr> = ''Scan'' @ ''.PDF''"
    by simp
  show ?thesis
    using a b type_check_accepts_pdf_suffix
      [of "\<lparr>file_name = ''Scan.PDF'', file_type = ''image/png'', file_size = 100\<rparr>"
          "Rejected NotAnError" "Rejected NotAnError" "initial None" "''.PDF''" "''Scan''"]
    by blast
qed

section \<open>Fetching the list\<close>

lemma getProp_summaries_response:
  "getProp (SummariesResponse_json xs n) ''summaries'' = Some (JArr (map Summary_json xs))"
  by (simp add: SummariesResponse_json_def)

lemma fetchSummaries_try_typed:
  "fetchSummaries_try (Response True (Inr (SummariesResponse_json xs n))) =
     Inr (JArr (map Summary_json xs))"
  by (simp add: fetchSummaries_try_def getProp_summaries_response)
     (simp add: SummariesResponse_json_def)

lemma summaries_fetchSummaries:
  "summaries (fetchSummaries silent r st) =
     (case fetchSummaries_try r of Inr v \<Rightarrow> v | Inl t \<Rightarrow> summaries st)"
  by (simp add: fetchSummaries_def setSummaries_def Let_def split: sum.splits)

lemma isArray_try:
  "summariesDeclared r \<Longrightarrow> fetchSummaries_try r = Inr v \<Longrightarrow> isArray v"
  by (auto simp add: summariesDeclared_def fetchSummaries_try_def isArray_def
      split: response.splits sum.splits if_splits option.splits json.splits)

lemma fetchSummaries_try_missing:
  "data \<noteq> JNull \<Longrightarrow> getProp data ''summaries'' = None \<or> getProp data ''summaries'' = Some JNull \<Longrightarrow>
   fetchSummaries_try (Response True (Inr data)) = Inr (JArr [])"
  by (auto simp add: fetchSummaries_try_def)

text \<open>
  Claim C3, as it is written, fails on the page: a response of the shape
  \<^verbatim>\<open>{documents: [...], count}\<close> with one document of the fields
  \<^verbatim>\<open>{id, filename, status, extracted_text, summary, updated_at}\<close> leaves the page with an empty
  list, since the page reads the member \<^verbatim>\<open>summaries\<close>.
\<close>

theorem list_under_documents_is_dropped:
  "summaries (fetchSummaries False
     (Response True (Inr (JObj
        [(''documents'',
          JArr [JObj [(''id'', JStr ''d1''), (''filename'', JStr ''a.pdf''),
                      (''status'', JStr ''UPLOADED''), (''extracted_text'', JNull),
                      (''summary'', JNull), (''updated_at'', JStr ''2024-01-01T00:00:00Z'')]]),
         (''count'', JNum 1)])))
     (initial None)) = JArr []"
  by code_simp

text \<open>
  Claim C3, amended. The page consumes the list response under the shape
  \<^verbatim>\<open>{summaries: [...], count}\<close> of its interface \<^verbatim>\<open>SummariesResponse\<close>: the elements of
  \<^verbatim>\<open>summaries\<close> become the list of the page, and each of them exposes exactly the fields
  \<^verbatim>\<open>{file_id, filename, status, text, summary, updated_at}\<close> of the interface \<^verbatim>\<open>Summary\<close>;
  \<^verbatim>\<open>id\<close> and \<^verbatim>\<open>extracted_text\<close> are not among them.
\<close>

theorem list_consumed_under_summaries:
  "fetchSummaries_try (Response True (Inr (SummariesResponse_json xs n))) =
     Inr (JArr (map Summary_json xs))
   \<and> summaries (fetchSummaries silent (Response True (Inr (SummariesResponse_json xs n))) st) =
       JArr (map Summary_json xs)
   \<and> getProp (Summary_json s) ''file_id'' = Some (JStr (file_id s))
   \<and> getProp (Summary_json s) ''filename'' = Some (JStr (filename s))
   \<and> getProp (Summary_json s) ''status'' = Some (JStr (status s))
   \<and> getProp (Summary_json s) ''text'' = Some (JStr (text' s))
   \<and> getProp (Summary_json s) ''summary'' = Some (JStr (summary s))
   \<and> getProp (Summary_json s) ''updated_at'' = Some (JStr (updated_at s))
   \<and> getProp (Summary_json s) ''id'' = None
   \<and> getProp (Summary_json s) ''extracted_text'' = None"
  by (simp add: summaries_fetchSummaries fetchSummaries_try_typed) (simp add: Summary_json_def)

text \<open>
  Claim C9. When the list held by the page is an array and the response is as
  \<^verbatim>\<open>fetchSummaries\<close> declares it, the list is an array after the call, whatever the outcome of
  the request. A body whose member \<^verbatim>\<open>summaries\<close> is missing or \<^verbatim>\<open>null\<close> yields the empty list.
  A silent call changes neither the error shown nor the loading flag; when it fails, its
  only trace is the request it has issued.
\<close>

theorem fetchSummaries_array_and_silence:
  "(isArray (summaries st) \<and> summariesDeclared r \<longrightarrow>
      isArray (summaries (fetchSummaries silent r st)))
   \<and> (data \<noteq> JNull
        \<and> (getProp data ''summaries'' = None \<or> getProp data ''summaries'' = Some JNull) \<longrightarrow>
        summaries (fetchSummaries silent (Response True (Inr data)) st) = JArr [])
   \<and> error (fetchSummaries True r st) = error st
   \<and> loading (fetchSummaries True r st) = loading st
   \<and> (fetchSummaries_try r = Inl t \<longrightarrow>
        fetchSummaries True r st =
          st\<lparr>requests := requests st @ [GET (apiUrl st @ ''/summaries'')]\<rparr>)"
proof (intro conjI impI)
  assume "isArray (summaries st) \<and> summariesDeclared r"
  then show "isArray (summaries (fetchSummaries silent r st))"
    using isArray_try [of r]
    by (cases "fetchSummaries_try r") (simp_all add: summaries_fetchSummaries)
next
  assume "data \<noteq> JNull
        \<and> (getProp data ''summaries'' = None \<or> getProp data ''summaries'' = Some JNull)"
  then show "summaries (fetchSummaries silent (Response True (Inr data)) st) = JArr []"
    by (simp add: summaries_fetchSummaries fetchSummaries_try_missing)
next
  show "error (fetchSummaries True r st) = error st"
    by (simp add: fetchSummaries_def setSummaries_def Let_def split: sum.splits)
  show "loading (fetchSummaries True r st) = loading st"
    by (simp add: fetchSummaries_def setSummaries_def Let_def split: sum.splits)
next
  assume "fetchSummaries_try r = Inl t"
  then show "fetchSummaries True r st =
          st\<lparr>requests := requests st @ [GET (apiUrl st @ ''/summaries'')]\<rparr>"
    by (simp add: fetchSummaries_def Let_def)
qed

text \<open>C9 at a body with \<^verbatim>\<open>summaries: null\<close>, and at a silent call answered with an error status.\<close>

theorem fetchSummaries_array_and_silence_witness:
  "isArray (summaries (fetchSummaries False
       (Response True (Inr (JObj [(''summaries'', JNull), (''count'', JNum 0)]))) (initial None)))
   \<and> summaries (fetchSummaries False
       (Response True (Inr (JObj [(''summaries'', JNull), (''count'', JNum 0)]))) (initial None))
       = JArr []
   \<and> fetchSummaries True (Response False (Inr JNull)) (initial None) =
       (initial None)\<lparr>requests := requests (initial None) @
          [GET (apiUrl (initial None) @ ''/summaries'')]\<rparr>"
proof -
  let ?d = "JObj [(''summaries'', JNull), (''count'', JNum 0)]"
  have h1: "isArray (summaries (initial None)) \<and> summariesDeclared (Response True (Inr ?d))"
    by code_simp
  have h2: "?d \<noteq> JNull
        \<and> (getProp ?d ''summaries'' = None \<or> getProp ?d ''summaries'' = Some JNull)"
    by simp
  have h3: "fetchSummaries_try (Response False (Inr JNull)) = Inl (Error ''Failed to fetch summaries'')"
    by (simp add: fetchSummaries_try_def)
  show ?thesis
    using h1 h2 h3
      fetchSummaries_array_and_silence
        [of "initial None" "Response True (Inr ?d)" False ?d "Error ''Failed to fetch summaries''"]
      fetchSummaries_array_and_silence
        [of "initial None" "Response False (Inr JNull)" False ?d "Error ''Failed to fetch summaries''"]
    by blast
qed

section \<open>Status strings\<close>

lemma getStatusColor_if:
  "getStatusColor s =
     (if equalsIgnoringCase s ''uploaded'' then ''bg-blue-100 text-blue-800''
      else if equalsIgnoringCase s ''text_ready'' then ''bg-yellow-100 text-yellow-800''
      else if equalsIgnoringCase s ''summary_ready'' then ''bg-green-100 text-green-800''
      else if equalsIgnoringCase s ''error'' then ''bg-red-100 text-red-800''
      else ''bg-gray-100 text-gray-800'')"
  unfolding getStatusColor_def Let_def
    toLowerCase_eq_plain [OF plain_names(1)] toLowerCase_eq_plain [OF plain_names(2)]
    toLowerCase_eq_plain [OF plain_names(3)] toLowerCase_eq_plain [OF plain_names(4)]
  by (rule refl)

lemma names_differ:
  "equalsIgnoringCase s ''uploaded'' \<Longrightarrow> \<not> equalsIgnoringCase s ''text_ready''"
  "equalsIgnoringCase s ''uploaded'' \<Longrightarrow> \<not> equalsIgnoringCase s ''summary_ready''"
  "equalsIgnoringCase s ''uploaded'' \<Longrightarrow> \<not> equalsIgnoringCase s ''error''"
  "equalsIgnoringCase s ''text_ready'' \<Longrightarrow> \<not> equalsIgnoringCase s ''summary_ready''"
  "equalsIgnoringCase s ''text_ready'' \<Longrightarrow> \<not> equalsIgnoringCase s ''error''"
  "equalsIgnoringCase s ''summary_ready'' \<Longrightarrow> \<not> equalsIgnoringCase s ''error''"
  by (auto simp add: equalsIgnoringCase_def dest!: list_all2_lengthD)

lemma inProgress_typed:
  "inProgress (Summary_json x) =
     Inr (equalsIgnoringCase (status x) ''uploaded'' \<or> equalsIgnoringCase (status x) ''text_ready'')"
  unfolding toLowerCase_eq_plain [OF plain_names(1), symmetric]
    toLowerCase_eq_plain [OF plain_names(2), symmetric]
  by (simp add: inProgress_def Summary_json_def)

text \<open>
  Claim C10. \<^verbatim>\<open>getStatusColor\<close> returns a value for every string: the blue, yellow, green
  and red styles for the strings that are \<^verbatim>\<open>uploaded\<close>, \<^verbatim>\<open>text_ready\<close>, \<^verbatim>\<open>summary_ready\<close> and
  \<^verbatim>\<open>error\<close> up to the case of their letters, and the gray style for every other string. The
  test for a summary in progress in \<^verbatim>\<open>Home\<close> compares the status in the same way.
\<close>

theorem getStatusColor_case_insensitive_total:
  "(equalsIgnoringCase s ''uploaded'' \<longrightarrow> getStatusColor s = ''bg-blue-100 text-blue-800'')
   \<and> (equalsIgnoringCase s ''text_ready'' \<longrightarrow> getStatusColor s = ''bg-yellow-100 text-yellow-800'')
   \<and> (equalsIgnoringCase s ''summary_ready'' \<longrightarrow> getStatusColor s = ''bg-green-100 text-green-800'')
   \<and> (equalsIgnoringCase s ''error'' \<longrightarrow> getStatusColor s = ''bg-red-100 text-red-800'')
   \<and> (\<not> equalsIgnoringCase s ''uploaded'' \<and> \<not> equalsIgnoringCase s ''text_ready''
        \<and> \<not> equalsIgnoringCase s ''summary_ready'' \<and> \<not> equalsIgnoringCase s ''error'' \<longrightarrow>
        getStatusColor s = ''bg-gray-100 text-gray-800'')
   \<and> inProgress (Summary_json x) =
        Inr (equalsIgnoringCase (status x) ''uploaded'' \<or> equalsIgnoringCase (status x) ''text_ready'')"
proof (intro conjI impI)
  assume "equalsIgnoringCase s ''uploaded''"
  then show "getStatusColor s = ''bg-blue-100 text-blue-800''"
    by (simp only: getStatusColor_if if_True)
next
  assume a: "equalsIgnoringCase s ''text_ready''"
  then have "\<not> equalsIgnoringCase s ''uploaded''"
    using names_differ(1) by blast
  with a show "getStatusColor s = ''bg-yellow-100 text-yellow-800''"
    by (simp only: getStatusColor_if if_True if_False)
next
  assume a: "equalsIgnoringCase s ''summary_ready''"
  then have "\<not> equalsIgnoringCase s ''uploaded''" "\<not> equalsIgnoringCase s ''text_ready''"
    using names_differ(2) names_differ(4) by blast+
  with a show "getStatusColor s = ''bg-green-100 text-green-800''"
    by (simp only: getStatusColor_if if_True if_False)
next
  assume a: "equalsIgnoringCase s ''error''"
  then have "\<not> equalsIgnoringCase s ''uploaded''" "\<not> equalsIgnoringCase s ''text_ready''"
    "\<not> equalsIgnoringCase s ''summary_ready''"
    using names_differ(3) names_differ(5) names_differ(6) by blast+
  with a show "getStatusColor s = ''bg-red-100 text-red-800''"
    by (simp only: getStatusColor_if if_True if_False)
next
  assume "\<not> equalsIgnoringCase s ''uploaded'' \<and> \<not> equalsIgnoringCase s ''text_ready''
        \<and> \<not> equalsIgnoringCase s ''summary_ready'' \<and> \<not> equalsIgnoringCase s ''error''"
  then show "getStatusColor s = ''bg-gray-100 text-gray-800''"
    by (simp only: getStatusColor_if if_False)
next
  show "inProgress (Summary_json x) =
        Inr (equalsIgnoringCase (status x) ''uploaded'' \<or> equalsIgnoringCase (status x) ''text_ready'')"
    by (rule inProgress_typed)
qed

text \<open>C10 at the four status names in several spellings, and at an unknown status.\<close>

theorem getStatusColor_case_insensitive_total_witness:
  "getStatusColor ''UPLOADED'' = ''bg-blue-100 text-blue-800''
   \<and> getStatusColor ''Text_Ready'' = ''bg-yellow-100 text-yellow-800''
   \<and> getStatusColor ''SUMMARY_READY'' = ''bg-green-100 text-green-800''
   \<and> getStatusColor ''eRRoR'' = ''bg-red-100 text-red-800''
   \<and> getStatusColor ''QUEUED'' = ''bg-gray-100 text-gray-800''"
proof (intro conjI)
  have "equalsIgnoringCase ''UPLOADED'' ''uploaded''" by code_simp
  then show "getStatusColor ''UPLOADED'' = ''bg-blue-100 text-blue-800''"
    by (rule getStatusColor_case_insensitive_total [THEN conjunct1, THEN mp])
next
  have "equalsIgnoringCase ''Text_Ready'' ''text_ready''" by code_simp
  then show "getStatusColor ''Text_Ready'' = ''bg-yellow-100 text-yellow-800''"
    by (rule getStatusColor_case_insensitive_total [THEN conjunct2, THEN conjunct1, THEN mp])
next
  have "equalsIgnoringCase ''SUMMARY_READY'' ''summary_ready''" by code_simp
  then show "getStatusColor ''SUMMARY_READY'' = ''bg-green-100 text-green-800''"
    by (rule getStatusColor_case_insensitive_total
          [THEN conjunct2, THEN conjunct2, THEN conjunct1, THEN mp])
next
  have "equalsIgnoringCase ''eRRoR'' ''error''" by code_simp
  then show "getStatusColor ''eRRoR'' = ''bg-red-100 text-red-800''"
    by (rule getStatusColor_case_insensitive_total
          [THEN conjunct2, THEN conjunct2, THEN conjunct2, THEN conjunct1, THEN mp])
next
  have "\<not> equalsIgnoringCase ''QUEUED'' ''uploaded'' \<and> \<not> equalsIgnoringCase ''QUEUED'' ''text_ready''
        \<and> \<not> equalsIgnoringCase ''QUEUED'' ''summary_ready'' \<and> \<not> equalsIgnoringCase ''QUEUED'' ''error''"
    by code_simp
  then show "getStatusColor ''QUEUED'' = ''bg-gray-100 text-gray-800''"
    by (rule getStatusColor_case_insensitive_total
          [THEN conjunct2, THEN conjunct2, THEN conjunct2, THEN conjunct2, THEN conjunct1, THEN mp])
qed

section \<open>Polling\<close>

lemma some_inProgress_typed:
  "some_inProgress (map Summary_json xs) =
     Inr (\<exists>s\<in>set xs. equalsIgnoringCase (status s) ''uploaded''
                      \<or> equalsIgnoringCase (status s) ''text_ready'')"
  by (induction xs) (auto simp add: inProgress_typed)

lemma pollEffect_typed:
  "summaries st = JArr (map Summary_json xs) \<Longrightarrow>
   pollEffect st =
     Inr (st\<lparr>pollInterval := (\<exists>s\<in>set xs. equalsIgnoringCase (status s) ''uploaded''
                                         \<or> equalsIgnoringCase (status s) ''text_ready'')\<rparr>)"
  by (simp add: pollEffect_def hasInProgressSummaries_def some_inProgress_typed)

lemma fetchSummaries_silent_typed:
  "fetchSummaries True (Response True (Inr (SummariesResponse_json xs n))) st =
     st\<lparr>requests := requests st @ [GET (apiUrl st @ ''/summaries'')],
        summaries := JArr (map Summary_json xs),
        summaries_ref := Suc (summaries_ref st)\<rparr>"
  by (simp add: fetchSummaries_def fetchSummaries_try_typed setSummaries_def Let_def)

lemma fetchSummaries_silent_failed:
  "fetchSummaries_try r = Inl t \<Longrightarrow>
   fetchSummaries True r st = st\<lparr>requests := requests st @ [GET (apiUrl st @ ''/summaries'')]\<rparr>"
  by (simp add: fetchSummaries_def Let_def)

text \<open>
  Claim C4. After the polling effect has run on a list, the interval is running exactly
  when some listed summary has the status \<^verbatim>\<open>UPLOADED\<close> or \<^verbatim>\<open>TEXT_READY\<close> (in any case of the
  letters). Without a running interval a tick calls nothing. With a running interval a tick
  calls the list endpoint once, silently; the list it receives replaces the old one, and the
  interval goes on exactly when that list has a summary in one of the two states, so
  polling stops with the first list that has none. A tick whose call fails leaves the list
  and the interval as they are.
\<close>

theorem polling_while_in_progress:
  "pollEffect (st\<lparr>summaries := JArr (map Summary_json xs)\<rparr>) =
     Inr (st\<lparr>summaries := JArr (map Summary_json xs),
             pollInterval := (\<exists>s\<in>set xs. equalsIgnoringCase (status s) ''uploaded''
                                          \<or> equalsIgnoringCase (status s) ''text_ready'')\<rparr>)
   \<and> (\<not> pollInterval st \<longrightarrow> pollTick r st = Inr st)
   \<and> (pollInterval st \<longrightarrow>
        pollTick (Response True (Inr (SummariesResponse_json xs n))) st =
          Inr (st\<lparr>requests := requests st @ [GET (apiUrl st @ ''/summaries'')],
                  summaries := JArr (map Summary_json xs),
                  summaries_ref := Suc (summaries_ref st),
                  pollInterval := (\<exists>s\<in>set xs. equalsIgnoringCase (status s) ''uploaded''
                                               \<or> equalsIgnoringCase (status s) ''text_ready'')\<rparr>))
   \<and> (pollInterval st \<and> fetchSummaries_try r = Inl t \<longrightarrow>
        pollTick r st = Inr (st\<lparr>requests := requests st @ [GET (apiUrl st @ ''/summaries'')]\<rparr>))"
proof (intro conjI impI)
  show "pollEffect (st\<lparr>summaries := JArr (map Summary_json xs)\<rparr>) =
     Inr (st\<lparr>summaries := JArr (map Summary_json xs),
             pollInterval := (\<exists>s\<in>set xs. equalsIgnoringCase (status s) ''uploaded''
                                          \<or> equalsIgnoringCase (status s) ''text_ready'')\<rparr>)"
    by (simp add: pollEffect_typed [of _ xs])
next
  assume "\<not> pollInterval st"
  then show "pollTick r st = Inr st" by (simp add: pollTick_def)
next
  assume "pollInterval st"
  then show "pollTick (Response True (Inr (SummariesResponse_json xs n))) st =
          Inr (st\<lparr>requests := requests st @ [GET (apiUrl st @ ''/summaries'')],
                  summaries := JArr (map Summary_json xs),
                  summaries_ref := Suc (summaries_ref st),
                  pollInterval := (\<exists>s\<in>set xs. equalsIgnoringCase (status s) ''uploaded''
                                               \<or> equalsIgnoringCase (status s) ''text_ready'')\<rparr>)"
    by (simp add: pollTick_def rerender_def fetchSummaries_silent_typed pollEffect_typed [of _ xs])
next
  assume "pollInterval st \<and> fetchSummaries_try r = Inl t"
  then show "pollTick r st = Inr (st\<lparr>requests := requests st @ [GET (apiUrl st @ ''/summaries'')]\<rparr>)"
    by (simp add: pollTick_def rerender_def fetchSummaries_silent_failed)
qed

text \<open>
  C4 at a running interval that receives a list with one finished summary, at a page without
  interval, and at a running interval whose call is rejected.
\<close>

theorem polling_while_in_progress_witness:
  "pollTick (Response True (Inr (SummariesResponse_json
        [\<lparr>file_id = ''1'', filename = ''a.pdf'', status = ''SUMMARY_READY'', text' = ''t'',
          summary = ''s'', updated_at = ''u''\<rparr>] 1)))
     ((initial None)\<lparr>pollInterval := True\<rparr>)
   = Inr ((initial None)
        \<lparr>requests := [GET ''http://localhost:8000/summaries''],
         summaries := JArr [Summary_json \<lparr>file_id = ''1'', filename = ''a.pdf'',
            status = ''SUMMARY_READY'', text' = ''t'', summary = ''s'', updated_at = ''u''\<rparr>],
         summaries_ref := 1,
         pollInterval := False\<rparr>)
   \<and> pollTick (Rejected NotAnError) (initial None) = Inr (initial None)
   \<and> pollTick (Rejected NotAnError) ((initial None)\<lparr>pollInterval := True\<rparr>)
     = Inr ((initial None)
        \<lparr>requests := [GET ''http://localhost:8000/summaries''], pollInterval := True\<rparr>)"
proof (intro conjI)
  let ?x = "\<lparr>file_id = ''1'', filename = ''a.pdf'', status = ''SUMMARY_READY'', text' = ''t'',
          summary = ''s'', updated_at = ''u''\<rparr>"
  let ?st = "(initial None)\<lparr>pollInterval := True\<rparr>"
  have h1: "pollInterval ?st" by simp
  have e1: "\<not> equalsIgnoringCase ''SUMMARY_READY'' ''uploaded''" by code_simp
  have e2: "\<not> equalsIgnoringCase ''SUMMARY_READY'' ''text_ready''" by code_simp
  have n: "(\<exists>s\<in>set [?x]. equalsIgnoringCase (status s) ''uploaded''
                        \<or> equalsIgnoringCase (status s) ''text_ready'') = False"
    using e1 e2 by simp
  have tick: "pollTick (Response True (Inr (SummariesResponse_json [?x] 1))) ?st =
          Inr (?st\<lparr>requests := requests ?st @ [GET (apiUrl ?st @ ''/summaries'')],
                  summaries := JArr (map Summary_json [?x]),
                  summaries_ref := Suc (summaries_ref ?st),
                  pollInterval := (\<exists>s\<in>set [?x]. equalsIgnoringCase (status s) ''uploaded''
                                               \<or> equalsIgnoringCase (status s) ''text_ready'')\<rparr>)"
    using h1
    by (rule polling_while_in_progress [THEN conjunct2, THEN conjunct2, THEN conjunct1, THEN mp])
  show "pollTick (Response True (Inr (SummariesResponse_json [?x] 1))) ?st
      = Inr ((initial None)
        \<lparr>requests := [GET ''http://localhost:8000/summaries''],
         summaries := JArr [Summary_json ?x],
         summaries_ref := 1,
         pollInterval := False\<rparr>)"
    unfolding tick n by (simp add: initial_def apiUrl_def)
  have h2: "\<not> pollInterval (initial None)" by (simp add: initial_def)
  then show "pollTick (Rejected NotAnError) (initial None) = Inr (initial None)"
    by (rule polling_while_in_progress [THEN conjunct2, THEN conjunct1, THEN mp])
  have "pollInterval ?st \<and> fetchSummaries_try (Rejected NotAnError) = Inl NotAnError"
    by (simp add: fetchSummaries_try_def)
  then have "pollTick (Rejected NotAnError) ?st =
      Inr (?st\<lparr>requests := requests ?st @ [GET (apiUrl ?st @ ''/summaries'')]\<rparr>)"
    by (rule polling_while_in_progress [THEN conjunct2, THEN conjunct2, THEN conjunct2, THEN mp])
  then show "pollTick (Rejected NotAnError) ?st
     = Inr ((initial None)
        \<lparr>requests := [GET ''http://localhost:8000/summaries''], pollInterval := True\<rparr>)"
    by (simp add: initial_def apiUrl_def)
qed

section \<open>The state machine of a document\<close>

lemma update_status:
  "store_s i' = Some d \<Longrightarrow>
   \<exists>d'. snd (update store_s i m now) i' = Some d' \<and>
        (d' = d \<or> (i' = i \<and> doc_status d = expected_status m \<and> d' = mutate m now d))"
  by (auto simp add: update_def split: option.splits)

lemma permitted_mutate: "permitted (expected_status m) (doc_status (mutate m now d))"
  by (cases m rule: expected_status.cases) simp_all

lemma update_advances: "advances (map_option doc_status (s i')) (map_option doc_status (snd (update s i m now) i'))"
  by (cases "s i'") (auto simp add: update_def permitted_mutate split: option.splits)

lemma advances_refl: "advances a a"
  by (cases a) auto

lemma extraction_commit_store:
  "store (extraction_commit k now j out p) = store p \<or>
   store (extraction_commit k now j out p) =
     snd (update (store p) (document_id j)
            (case out of Succeeded t \<Rightarrow> SetExtractedText t
                       | PermanentFailure r \<Rightarrow> SetError Extraction r
                       | TransientFailure r \<Rightarrow> SetError Extraction r) now)"
  by (auto simp add: extraction_commit_def split: outcome.splits prod.splits sum.splits)

lemma summarization_commit_store:
  "store (summarization_commit k now j out p) = store p \<or>
   store (summarization_commit k now j out p) =
     snd (update (store p) (document_id j)
            (case out of Succeeded t \<Rightarrow> SetSummary t
                       | PermanentFailure r \<Rightarrow> SetError Summarization r
                       | TransientFailure r \<Rightarrow> SetError Summarization r) now)"
  by (auto simp add: summarization_commit_def split: outcome.splits prod.splits sum.splits)

lemma extraction_worker_store:
  "store (extraction_worker k now out p) = store p \<or>
   (\<exists>j. store (extraction_worker k now out p) = store (extraction_commit k now j out p))"
  by (auto simp add: extraction_worker_def split: list.splits sum.splits)

lemma summarization_worker_store:
  "store (summarization_worker k now out p) = store p \<or>
   (\<exists>j. store (summarization_worker k now out p) = store (summarization_commit k now j out p))"
  by (auto simp add: summarization_worker_def split: list.splits sum.splits)

lemma submit_store:
  "store (snd (submit ms now u p)) = store p \<or>
   store (snd (submit ms now u p)) =
     snd (create (store p) (new_id u) (sub_filename u) (stored_ref u) now)"
  by (cases "create (store p) (new_id u) (sub_filename u) (stored_ref u) now")
     (auto simp add: submit_def split: sum.splits)

lemma step_store:
  "store (step c e p) = store p
   \<or> (\<exists>i m now. store (step c e p) = snd (update (store p) i m now))
   \<or> (\<exists>i name ref now. store (step c e p) = snd (create (store p) i name ref now))"
proof (cases e)
  case (Submit now u)
  then show ?thesis
    using submit_store [of "max_size c" now u p] by (simp only: step.simps) blast
next
  case (ExtractionStep now out)
  then show ?thesis
    using extraction_worker_store [of "max_retries c" now out p]
      extraction_commit_store [of "max_retries c" now _ out p]
    by (simp only: step.simps) metis
next
  case (SummarizationStep now out)
  then show ?thesis
    using summarization_worker_store [of "max_retries c" now out p]
      summarization_commit_store [of "max_retries c" now _ out p]
    by (simp only: step.simps) metis
next
  case (ExtractionCommit now j out)
  then show ?thesis
    using extraction_commit_store [of "max_retries c" now j out p]
    by (simp only: step.simps) blast
next
  case (SummarizationCommit now j out)
  then show ?thesis
    using summarization_commit_store [of "max_retries c" now j out p]
    by (simp only: step.simps) blast
qed

lemma create_advances:
  "advances (map_option doc_status (s i')) (map_option doc_status (snd (create s i name ref now) i'))"
  by (cases "s i'") (auto simp add: create_def Let_def split: option.splits)

lemma step_advances: "advances (status_of p i) (status_of (step c e p) i)"
  using step_store [of c e p]
  by (auto simp add: status_of_def update_advances create_advances advances_refl)

lemma hd_states: "hd (states c es p) = p"
  by (cases es) simp_all

lemma states_not_Nil: "states c es p \<noteq> []"
  by (cases es) simp_all

lemma successively_states:
  "successively advances (map (\<lambda>q. status_of q i) (states c es p))"
proof (induction es arbitrary: p)
  case Nil
  then show ?case by simp
next
  case (Cons e es)
  have "advances (status_of p i) (status_of (hd (states c es (step c e p))) i)"
    by (simp add: hd_states step_advances)
  then show ?case
    using Cons.IH [of "step c e p"] states_not_Nil [of c es "step c e p"]
    by (simp add: successively_Cons hd_map)
qed

lemma terminal_step:
  "status_of p i = Some a \<Longrightarrow> a = SUMMARY_READY \<or> a = ERROR \<Longrightarrow>
   status_of (step c e p) i = Some a"
  using step_advances [of p i c e]
  by (cases "status_of (step c e p) i") auto

lemma terminal_states:
  "status_of p i = Some a \<Longrightarrow> a = SUMMARY_READY \<or> a = ERROR \<Longrightarrow>
   status_of (last (states c es p)) i = Some a"
proof (induction es arbitrary: p)
  case Nil
  then show ?case by simp
next
  case (Cons e es)
  then show ?case
    using terminal_step [of p i a c e] states_not_Nil [of c es "step c e p"] by simp
qed

text \<open>
  Claim C2. Along every sequence of events, from every state of the pipeline, the status of
  a document moves from each moment to the next as the state machine permits: the document
  is created as \<open>UPLOADED\<close>, keeps its status, steps from \<open>UPLOADED\<close> to \<open>TEXT_READY\<close> or
  from \<open>TEXT_READY\<close> to \<open>SUMMARY_READY\<close>, or goes from \<open>UPLOADED\<close> or \<open>TEXT_READY\<close> to
  \<open>ERROR\<close>. No transition leaves \<open>SUMMARY_READY\<close> or \<open>ERROR\<close>, and a document in one of them
  has that status after any further events.
\<close>

theorem status_path_monotone:
  "successively advances (map (\<lambda>q. status_of q i) (states c es p))
   \<and> \<not> permitted SUMMARY_READY b \<and> \<not> permitted ERROR b
   \<and> (status_of p i = Some a \<and> (a = SUMMARY_READY \<or> a = ERROR) \<longrightarrow>
        status_of (last (states c es p)) i = Some a)"
  using successively_states [of i c es p] terminal_states [of p i a c es] by simp

text \<open>
  C2 at a document in \<open>ERROR\<close>: a late commit of an extraction and a round of the
  summarization worker leave it in \<open>ERROR\<close>.
\<close>

theorem status_path_monotone_witness:
  "status_of
     (last (states \<lparr>max_size = 5242880, max_retries = 3\<rparr>
        [ExtractionCommit 5
           \<lparr>document_id = ''a'', job_kind = EXTRACT, job_mode = plain_text, redeliveries = 0\<rparr>
           (Succeeded ''late text''),
         SummarizationStep 6 (Succeeded ''late summary'')]
        \<lparr>store = Map.empty(''a'' \<mapsto>
            \<lparr>doc_id = ''a'', doc_filename = ''a.pdf'', doc_status = ERROR,
             extracted_text = None, doc_summary = None, error_detail = Some ''unreadable'',
             doc_updated_at = 4, raw_content_ref = ''blob-a''\<rparr>),
          extract_queue = [], summarize_queue = []\<rparr>))
     ''a'' = Some ERROR"
proof -
  let ?p = "\<lparr>store = Map.empty(''a'' \<mapsto>
            \<lparr>doc_id = ''a'', doc_filename = ''a.pdf'', doc_status = ERROR,
             extracted_text = None, doc_summary = None, error_detail = Some ''unreadable'',
             doc_updated_at = 4, raw_content_ref = ''blob-a''\<rparr>),
          extract_queue = [], summarize_queue = []\<rparr>"
  have h: "status_of ?p ''a'' = Some ERROR \<and> (ERROR = SUMMARY_READY \<or> ERROR = ERROR)"
    by (simp add: status_of_def)
  then show ?thesis
    by (rule status_path_monotone [THEN conjunct2, THEN conjunct2, THEN conjunct2, THEN mp])
qed

section \<open>The optional fields of a document\<close>

lemma consistent_mutate:
  "consistent d \<Longrightarrow> doc_status d = expected_status m \<Longrightarrow> consistent (mutate m now d)"
  by (cases m rule: expected_status.cases) (auto simp add: consistent_def)

lemma consistent_update:
  "\<forall>i d. s i = Some d \<longrightarrow> consistent d \<Longrightarrow>
   snd (update s k m now) i = Some d \<Longrightarrow> consistent d"
  by (auto simp add: update_def consistent_mutate split: option.splits if_splits)

lemma consistent_create:
  "\<forall>i d. s i = Some d \<longrightarrow> consistent d \<Longrightarrow>
   snd (create s k name ref now) i = Some d \<Longrightarrow> consistent d"
  by (auto simp add: create_def consistent_def Let_def split: option.splits if_splits)

lemma consistent_step:
  assumes "\<forall>i d. store p i = Some d \<longrightarrow> consistent d"
    and "store (step c e p) i = Some d"
  shows "consistent d"
  using step_store [of c e p] assms consistent_update [OF assms(1)] consistent_create [OF assms(1)]
  by metis

lemma consistent_states:
  "\<forall>i d. store p i = Some d \<longrightarrow> consistent d \<Longrightarrow>
   store (last (states c es p)) i = Some d \<Longrightarrow> consistent d"
proof (induction es arbitrary: p)
  case Nil
  then show ?case by simp
next
  case (Cons e es)
  have "\<forall>i d. store (step c e p) i = Some d \<longrightarrow> consistent d"
    using consistent_step [OF Cons.prems(1)] by blast
  then show ?case
    using Cons.IH [of "step c e p"] Cons.prems(2) states_not_Nil [of c es "step c e p"] by simp
qed

lemma update_keeps_text:
  "s i = Some d \<Longrightarrow> snd (update s k m now) i = Some d' \<Longrightarrow> doc_status d' = ERROR \<Longrightarrow>
   extracted_text d' = extracted_text d \<and> doc_summary d' = doc_summary d"
  by (cases m) (auto simp add: update_def split: option.splits if_splits)

lemma create_keeps:
  "s i = Some d \<Longrightarrow> snd (create s k name ref now) i = Some d' \<Longrightarrow> d' = d"
  by (auto simp add: create_def Let_def split: option.splits if_splits)

lemma step_keeps_text:
  assumes "store p i = Some d" "store (step c e p) i = Some d'" "doc_status d' = ERROR"
  shows "extracted_text d' = extracted_text d"
proof -
  from step_store [of c e p] consider
      (same) "store (step c e p) = store p"
    | (upd) k m now where "store (step c e p) = snd (update (store p) k m now)"
    | (cre) k name ref now where "store (step c e p) = snd (create (store p) k name ref now)"
    by blast
  then show ?thesis
  proof cases
    case same
    with assms show ?thesis by simp
  next
    case upd
    with assms update_keeps_text [of "store p" i d k m now d'] show ?thesis by simp
  next
    case cre
    with assms create_keeps [of "store p" i d k name ref now d'] show ?thesis by simp
  qed
qed

text \<open>
  Claim C5. A document is consistent when its extracted text is present in \<open>TEXT_READY\<close>
  and \<open>SUMMARY_READY\<close> and otherwise at most in \<open>ERROR\<close>, and its summary is present
  exactly in \<open>SUMMARY_READY\<close>. Every event keeps all documents of the store consistent;
  all documents that the pipeline ever holds, starting empty, are consistent; and a document
  that an event leaves in \<open>ERROR\<close> has the extracted text it had before the event.
\<close>

theorem fields_follow_status:
  "((\<forall>i d. store p i = Some d \<longrightarrow> consistent d) \<longrightarrow>
      (\<forall>i d. store (step c e p) i = Some d \<longrightarrow> consistent d))
   \<and> (store (last (states c es empty_pipeline)) i = Some d \<longrightarrow> consistent d)
   \<and> (store p i = Some d \<and> store (step c e p) i = Some d' \<and> doc_status d' = ERROR \<longrightarrow>
        extracted_text d' = extracted_text d)"
proof (intro conjI impI allI)
  fix k x
  assume "\<forall>i d. store p i = Some d \<longrightarrow> consistent d" "store (step c e p) k = Some x"
  then show "consistent x" by (rule consistent_step)
next
  assume "store (last (states c es empty_pipeline)) i = Some d"
  moreover have "\<forall>i d. store empty_pipeline i = Some d \<longrightarrow> consistent d"
    by (simp add: empty_pipeline_def)
  ultimately show "consistent d" using consistent_states by blast
next
  assume "store p i = Some d \<and> store (step c e p) i = Some d' \<and> doc_status d' = ERROR"
  then show "extracted_text d' = extracted_text d"
    using step_keeps_text by blast
qed

text \<open>
  C5 at a successful extraction, at the first submission, and at a summarization that fails
  after the text has been extracted.
\<close>

theorem fields_follow_status_witness:
  "consistent
     \<lparr>doc_id = ''a'', doc_filename = ''a.pdf'', doc_status = TEXT_READY,
      extracted_text = Some ''hello'', doc_summary = None, error_detail = None,
      doc_updated_at = 1, raw_content_ref = ''blob-a''\<rparr>
   \<and> consistent
     \<lparr>doc_id = ''a'', doc_filename = ''a.pdf'', doc_status = UPLOADED,
      extracted_text = None, doc_summary = None, error_detail = None,
      doc_updated_at = 0, raw_content_ref = ''blob-a''\<rparr>
   \<and> extracted_text
     \<lparr>doc_id = ''a'', doc_filename = ''a.pdf'', doc_status = ERROR,
      extracted_text = Some ''hello'', doc_summary = None, error_detail = Some ''quota'',
      doc_updated_at = 2, raw_content_ref = ''blob-a''\<rparr> = Some ''hello''"
proof (intro conjI)
  let ?c = "\<lparr>max_size = 5242880, max_retries = 3\<rparr>"
  let ?j = "\<lparr>document_id = ''a'', job_kind = EXTRACT, job_mode = plain_text, redeliveries = 0\<rparr>"
  let ?k = "\<lparr>document_id = ''a'', job_kind = SUMMARIZE, job_mode = plain_text, redeliveries = 0\<rparr>"
  let ?d0 = "\<lparr>doc_id = ''a'', doc_filename = ''a.pdf'', doc_status = UPLOADED,
      extracted_text = None, doc_summary = None, error_detail = None,
      doc_updated_at = 0, raw_content_ref = ''blob-a''\<rparr>"
  let ?d1 = "\<lparr>doc_id = ''a'', doc_filename = ''a.pdf'', doc_status = TEXT_READY,
      extracted_text = Some ''hello'', doc_summary = None, error_detail = None,
      doc_updated_at = 1, raw_content_ref = ''blob-a''\<rparr>"
  let ?d2 = "\<lparr>doc_id = ''a'', doc_filename = ''a.pdf'', doc_status = ERROR,
      extracted_text = Some ''hello'', doc_summary = None, error_detail = Some ''quota'',
      doc_updated_at = 2, raw_content_ref = ''blob-a''\<rparr>"
  let ?u = "\<lparr>new_id = ''a'', sub_filename = ''a.pdf'', content_type = ''application/pdf'',
      byte_size = 10240, stored_ref = ''blob-a'', sub_mode = plain_text\<rparr>"
  let ?p0 = "\<lparr>store = Map.empty(''a'' \<mapsto> ?d0), extract_queue = [?j], summarize_queue = []\<rparr>"
  let ?p1 = "\<lparr>store = Map.empty(''a'' \<mapsto> ?d1), extract_queue = [], summarize_queue = [?k]\<rparr>"
  have inv0: "\<forall>i d. store ?p0 i = Some d \<longrightarrow> consistent d"
    by (simp add: consistent_def)
  have s1: "store (step ?c (ExtractionStep 1 (Succeeded ''hello'')) ?p0) ''a'' = Some ?d1"
    by (simp add: extraction_worker_def extraction_commit_def get_def update_def)
  from inv0 have "\<forall>i d. store (step ?c (ExtractionStep 1 (Succeeded ''hello'')) ?p0) i = Some d
      \<longrightarrow> consistent d"
    by (rule fields_follow_status [THEN conjunct1, THEN mp])
  with s1 show "consistent ?d1" by blast
  have r: "store (last (states ?c [Submit 0 ?u] empty_pipeline)) ''a'' = Some ?d0"
    by (simp add: submit_def create_def empty_pipeline_def Let_def)
  then show "consistent ?d0"
    by (rule fields_follow_status [THEN conjunct2, THEN conjunct1, THEN mp])
  have "store ?p1 ''a'' = Some ?d1
      \<and> store (step ?c (SummarizationStep 2 (PermanentFailure ''quota'')) ?p1) ''a'' = Some ?d2
      \<and> doc_status ?d2 = ERROR"
    by (simp add: summarization_worker_def summarization_commit_def get_def update_def)
  then have "extracted_text ?d2 = extracted_text ?d1"
    by (rule fields_follow_status [THEN conjunct2, THEN conjunct2, THEN mp])
  then show "extracted_text ?d2 = Some ''hello''" by simp
qed

section \<open>Compare-and-set\<close>

lemma status_mutate: "doc_status (mutate m now d) \<noteq> expected_status m"
  by (cases m rule: expected_status.cases) simp_all

text \<open>
  Claim C6. For a stored document, \<^verbatim>\<open>update\<close> fails with \<open>Conflict\<close> exactly when the stored
  status is not the expected pre-state of the mutation. A failed \<^verbatim>\<open>update\<close> leaves the store
  as it was. When two calls with the same expected pre-state race for a document that is
  in that state, the one that the store serves first succeeds and the other one fails with
  \<open>Conflict\<close> and changes nothing, whichever of the two comes first.
\<close>

theorem update_compare_and_set:
  "(s i = Some d \<longrightarrow>
      (fst (update s i m now) = Inl Conflict) = (doc_status d \<noteq> expected_status m))
   \<and> (fst (update s i m now) = Inl err \<longrightarrow> snd (update s i m now) = s)
   \<and> (s i = Some d \<and> doc_status d = expected_status m
        \<and> expected_status m' = expected_status m \<longrightarrow>
        fst (update s i m now) = Inr (mutate m now d)
        \<and> fst (update (snd (update s i m now)) i m' now') = Inl Conflict
        \<and> snd (update (snd (update s i m now)) i m' now') = snd (update s i m now))"
  by (auto simp add: update_def status_mutate split: option.splits)

text \<open>C6 at an upload that an extraction result and an extraction failure race for.\<close>

theorem update_compare_and_set_witness:
  "fst (update
         (Map.empty(''a'' \<mapsto>
            \<lparr>doc_id = ''a'', doc_filename = ''a.pdf'', doc_status = UPLOADED,
             extracted_text = None, doc_summary = None, error_detail = None,
             doc_updated_at = 0, raw_content_ref = ''blob-a''\<rparr>))
         ''a'' (SetExtractedText ''hello'') 1)
     = Inr \<lparr>doc_id = ''a'', doc_filename = ''a.pdf'', doc_status = TEXT_READY,
            extracted_text = Some ''hello'', doc_summary = None, error_detail = None,
            doc_updated_at = 1, raw_content_ref = ''blob-a''\<rparr>
   \<and> fst (update
         (snd (update
            (Map.empty(''a'' \<mapsto>
               \<lparr>doc_id = ''a'', doc_filename = ''a.pdf'', doc_status = UPLOADED,
                extracted_text = None, doc_summary = None, error_detail = None,
                doc_updated_at = 0, raw_content_ref = ''blob-a''\<rparr>))
            ''a'' (SetExtractedText ''hello'') 1))
         ''a'' (SetError Extraction ''timeout'') 2)
     = Inl Conflict"
proof -
  let ?d = "\<lparr>doc_id = ''a'', doc_filename = ''a.pdf'', doc_status = UPLOADED,
             extracted_text = None, doc_summary = None, error_detail = None,
             doc_updated_at = 0, raw_content_ref = ''blob-a''\<rparr>"
  let ?s = "Map.empty(''a'' \<mapsto> ?d)"
  have h: "?s ''a'' = Some ?d \<and> doc_status ?d = expected_status (SetExtractedText ''hello'')
        \<and> expected_status (SetError Extraction ''timeout'') = expected_status (SetExtractedText ''hello'')"
    by simp
  have "fst (update ?s ''a'' (SetExtractedText ''hello'') 1) = Inr (mutate (SetExtractedText ''hello'') 1 ?d)
        \<and> fst (update (snd (update ?s ''a'' (SetExtractedText ''hello'') 1)) ''a''
                 (SetError Extraction ''timeout'') 2) = Inl Conflict
        \<and> snd (update (snd (update ?s ''a'' (SetExtractedText ''hello'') 1)) ''a''
                 (SetError Extraction ''timeout'') 2) = snd (update ?s ''a'' (SetExtractedText ''hello'') 1)"
    using h by (rule update_compare_and_set [THEN conjunct2, THEN conjunct2, THEN mp])
  then show ?thesis by simp
qed

end
